theory Spec2Isabelle
  imports Complex_Main
begin

section \<open>Forward dynamics driver (engine\_forward.c)\<close>

text \<open>
  A shallow embedding of \<^verbatim>\<open>src/engine/engine_forward.c\<close>.

  \<^item> \<^verbatim>\<open>mjtNum\<close> (a C double) is idealised as a real number. The predicate
    \<^verbatim>\<open>mju_isBad\<close> is a parameter, so no property of it is assumed.
  \<^item> A C array is a pointer into the buffer of \<^verbatim>\<open>mjData\<close> or \<^verbatim>\<open>mjModel\<close>; it is a
    total function from the (C int) index to the value. The sizes are the dimensions
    \<^verbatim>\<open>nq, nv, nu, na, nM, nD, nefc\<close>; a routine called with a length \<open>n\<close> reads and
    writes the indices \<open>0 \<le> i < n\<close> only.
  \<^item> \<^verbatim>\<open>int\<close> values (dimensions, indices, enum labels) are integers; the sizes involved
    are far from the 32-bit limits.
  \<^item> A fatal \<^verbatim>\<open>mju_error\<close> is the \<open>Inl\<close> branch of a sum.
  \<^item> The scratch stack (\<^verbatim>\<open>mjMARKSTACK, mj_stackAlloc, mjFREESTACK\<close>) holds the local
    arrays of a routine; they are local values here, zero before their first write.
    The profiling macros \<^verbatim>\<open>TM_START, TM_END\<close> touch \<^verbatim>\<open>d->timer\<close> only and are left out.
  \<^item> The field \<open>calls\<close> of the data is not a field of the C struct: it lists the routines
    entered so far, so that "this routine runs" is a statement about the data.
  \<^item> \<^verbatim>\<open>mj_step2\<close> is not needed below and is not embedded.
\<close>

type_synonym mjtNum = real
type_synonym arr = "int \<Rightarrow> mjtNum"
type_synonym iarr = "int \<Rightarrow> int"

subsection \<open>Loops\<close>

text \<open>\<^verbatim>\<open>for (int i=i0; i<n; i++) s = body(i, s);\<close>\<close>

function for_loop :: "int \<Rightarrow> int \<Rightarrow> (int \<Rightarrow> 's \<Rightarrow> 's) \<Rightarrow> 's \<Rightarrow> 's" where
  "for_loop i n body s = (if i < n then for_loop (i + 1) n body (body i s) else s)"
  by pat_completeness auto
termination
  by (relation "measure (\<lambda>(i, n, body, s). nat (n - i))") auto

declare for_loop.simps [simp del]

text \<open>
  \<^verbatim>\<open>for (i=i0; i<n; i++) if (p(a[i])) break;\<close> The result is the value of \<open>i\<close> after the
  loop: the first index from \<open>i0\<close> whose entry satisfies \<open>p\<close>, or the bound when the loop
  runs to its end.
\<close>

function scan_loop :: "(mjtNum \<Rightarrow> bool) \<Rightarrow> arr \<Rightarrow> int \<Rightarrow> int \<Rightarrow> int" where
  "scan_loop p a i n = (if i < n then (if p (a i) then i else scan_loop p a (i + 1) n) else i)"
  by pat_completeness auto
termination
  by (relation "measure (\<lambda>(p, a, i, n). nat (n - i))") auto

declare scan_loop.simps [simp del]

subsection \<open>Vector primitives (engine\_util\_blas.c)\<close>

text \<open>
  Modelled from the spec: the vector primitives of \<^verbatim>\<open>engine_util_blas.c\<close> are not part of
  the sources at hand. Each follows the formula the spec and the code comments give for
  its call sites (\<open>qvel += h \<cdot> qacc\<close>, \<open>qfrc = qfrc_smooth + qfrc_constraint\<close>,
  \<open>actuator_velocity = actuator_moment \<cdot> qvel\<close>, ...), on the first \<open>n\<close> entries of the
  result.
\<close>

definition ptr_add :: "(int \<Rightarrow> 'a) \<Rightarrow> int \<Rightarrow> (int \<Rightarrow> 'a)" where
  \<comment> \<open>the C pointer \<^verbatim>\<open>a + k\<close>\<close>
  "ptr_add a k = (\<lambda>i. a (i + k))"

definition at_offset :: "int \<Rightarrow> ((int \<Rightarrow> 'a) \<Rightarrow> (int \<Rightarrow> 'a)) \<Rightarrow> (int \<Rightarrow> 'a) \<Rightarrow> (int \<Rightarrow> 'a)" where
  \<comment> \<open>a routine writing through the pointer \<^verbatim>\<open>a + k\<close>, seen from \<^verbatim>\<open>a\<close>\<close>
  "at_offset k f a = (\<lambda>i. f (ptr_add a k) (i - k))"

definition mju_zero :: "arr \<Rightarrow> int \<Rightarrow> arr" where
  "mju_zero res n = (\<lambda>i. if 0 \<le> i \<and> i < n then 0 else res i)"

definition mju_copy :: "(int \<Rightarrow> 'a) \<Rightarrow> (int \<Rightarrow> 'a) \<Rightarrow> int \<Rightarrow> (int \<Rightarrow> 'a)" where
  "mju_copy res src n = (\<lambda>i. if 0 \<le> i \<and> i < n then src i else res i)"

definition mju_add :: "arr \<Rightarrow> arr \<Rightarrow> arr \<Rightarrow> int \<Rightarrow> arr" where
  "mju_add res a b n = (\<lambda>i. if 0 \<le> i \<and> i < n then a i + b i else res i)"

definition mju_sub :: "arr \<Rightarrow> arr \<Rightarrow> arr \<Rightarrow> int \<Rightarrow> arr" where
  "mju_sub res a b n = (\<lambda>i. if 0 \<le> i \<and> i < n then a i - b i else res i)"

definition mju_addTo :: "arr \<Rightarrow> arr \<Rightarrow> int \<Rightarrow> arr" where
  "mju_addTo res a n = (\<lambda>i. if 0 \<le> i \<and> i < n then res i + a i else res i)"

definition mju_subFrom :: "arr \<Rightarrow> arr \<Rightarrow> int \<Rightarrow> arr" where
  "mju_subFrom res a n = (\<lambda>i. if 0 \<le> i \<and> i < n then res i - a i else res i)"

definition mju_addToScl :: "arr \<Rightarrow> arr \<Rightarrow> mjtNum \<Rightarrow> int \<Rightarrow> arr" where
  "mju_addToScl res a scl n = (\<lambda>i. if 0 \<le> i \<and> i < n then res i + a i * scl else res i)"

definition mju_dot :: "arr \<Rightarrow> arr \<Rightarrow> int \<Rightarrow> mjtNum" where
  "mju_dot a b n = for_loop 0 n (\<lambda>i acc. acc + a i * b i) 0"

definition mju_mulMatVec :: "arr \<Rightarrow> arr \<Rightarrow> arr \<Rightarrow> int \<Rightarrow> int \<Rightarrow> arr" where
  \<comment> \<open>\<open>res = mat \<cdot> vec\<close>, \<open>mat\<close> row-major with \<open>nr\<close> rows and \<open>nc\<close> columns\<close>
  "mju_mulMatVec res mat vec nr nc =
     (\<lambda>r. if 0 \<le> r \<and> r < nr then mju_dot (ptr_add mat (r * nc)) vec nc else res r)"

definition mju_mulMatTVec :: "arr \<Rightarrow> arr \<Rightarrow> arr \<Rightarrow> int \<Rightarrow> int \<Rightarrow> arr" where
  \<comment> \<open>\<open>res = mat\<^sup>T \<cdot> vec\<close>\<close>
  "mju_mulMatTVec res mat vec nr nc =
     (\<lambda>c. if 0 \<le> c \<and> c < nc
          then for_loop 0 nr (\<lambda>r acc. acc + mat (r * nc + c) * vec r) 0 else res c)"

definition mju_max :: "mjtNum \<Rightarrow> mjtNum \<Rightarrow> mjtNum" where
  "mju_max a b = (if a > b then a else b)"

definition scratch :: "int \<Rightarrow> 'a::zero" where
  \<comment> \<open>a local array from \<^verbatim>\<open>mj_stackAlloc\<close>, before its first write\<close>
  "scratch = (\<lambda>i. 0)"

subsection \<open>Model and data\<close>

text \<open>
  Modelled from the spec: the enumerations of \<^verbatim>\<open>mjmodel.h\<close> are not part of the sources
  at hand. The labels of one enumeration are distinct integers; the stage labels are
  ordered \<open>NONE < POS < VEL < ACC\<close>.
\<close>

definition mjSTAGE_NONE :: int where "mjSTAGE_NONE = 0"
definition mjSTAGE_POS :: int where "mjSTAGE_POS = 1"
definition mjSTAGE_VEL :: int where "mjSTAGE_VEL = 2"
definition mjSTAGE_ACC :: int where "mjSTAGE_ACC = 3"

definition mjINT_EULER :: int where "mjINT_EULER = 0"
definition mjINT_RK4 :: int where "mjINT_RK4 = 1"
definition mjINT_IMPLICIT :: int where "mjINT_IMPLICIT = 2"

definition mjSOL_PGS :: int where "mjSOL_PGS = 0"
definition mjSOL_CG :: int where "mjSOL_CG = 1"
definition mjSOL_NEWTON :: int where "mjSOL_NEWTON = 2"

definition mjGAIN_FIXED :: int where "mjGAIN_FIXED = 0"
definition mjGAIN_MUSCLE :: int where "mjGAIN_MUSCLE = 1"

definition mjBIAS_NONE :: int where "mjBIAS_NONE = 0"
definition mjBIAS_AFFINE :: int where "mjBIAS_AFFINE = 1"
definition mjBIAS_MUSCLE :: int where "mjBIAS_MUSCLE = 2"

definition mjDYN_NONE :: int where "mjDYN_NONE = 0"
definition mjDYN_INTEGRATOR :: int where "mjDYN_INTEGRATOR = 1"
definition mjDYN_FILTER :: int where "mjDYN_FILTER = 2"
definition mjDYN_MUSCLE :: int where "mjDYN_MUSCLE = 3"

datatype mjtDisableBit = mjDSBL_ACTUATION | mjDSBL_CLAMPCTRL | mjDSBL_WARMSTART
datatype mjtEnableBit = mjENBL_ENERGY | mjENBL_FWDINV
datatype mjtWarning = mjWARN_BADQPOS | mjWARN_BADQVEL | mjWARN_BADQACC | mjWARN_BADCTRL

record mjOption =
  timestep :: mjtNum
  integrator :: int
  solver :: int
  iterations :: int
  noslip_iterations :: int
  disableflags :: "mjtDisableBit set"  \<comment> \<open>the bit mask, as the set of its bits\<close>
  enableflags :: "mjtEnableBit set"

record mjModel =
  nq :: int
  nv :: int
  nu :: int
  na :: int
  nM :: int
  nD :: int
  ntendon :: int
  opt :: mjOption
  dof_Madr :: iarr
  dof_damping :: arr
  actuator_dyntype :: iarr
  actuator_gaintype :: iarr
  actuator_biastype :: iarr
  actuator_ctrllimited :: iarr
  actuator_forcelimited :: iarr
  actuator_actlimited :: iarr
  actuator_dynprm :: arr
  actuator_gainprm :: arr
  actuator_biasprm :: arr
  actuator_ctrlrange :: arr
  actuator_forcerange :: arr
  actuator_actrange :: arr
  actuator_lengthrange :: arr
  actuator_acc0 :: arr

record mjWarningStat =
  lastinfo :: int
  number :: int

record mjData =
  time :: mjtNum
  qpos :: arr
  qvel :: arr
  act :: arr
  qacc_warmstart :: arr
  ctrl :: arr
  qfrc_applied :: arr
  qacc :: arr
  act_dot :: arr
  warning :: "mjtWarning \<Rightarrow> mjWarningStat"
  solver_iter :: int
  nefc :: int
  ten_J_rownnz :: iarr
  ten_J_rowadr :: iarr
  ten_J_colind :: iarr
  ten_J :: arr
  ten_velocity :: arr
  actuator_length :: arr
  actuator_moment :: arr
  actuator_velocity :: arr
  actuator_force :: arr
  qM :: arr
  qLD :: arr
  qLDiagInv :: arr
  qLDiagSqrtInv :: arr
  qfrc_bias :: arr
  qfrc_passive :: arr
  qfrc_actuator :: arr
  qfrc_smooth :: arr
  qacc_smooth :: arr
  qfrc_constraint :: arr
  D_rownnz :: iarr
  D_rowadr :: iarr
  D_colind :: iarr
  qDeriv :: arr
  qLU :: arr
  efc_AR_rownnz :: iarr
  efc_AR_rowadr :: iarr
  efc_AR_colind :: iarr
  efc_AR :: arr
  efc_aref :: arr
  efc_b :: arr
  efc_force :: arr
  calls :: "string list"
    \<comment> \<open>not a field of the C struct: the names of the routines entered so far, in order\<close>

definition mjDISABLED :: "mjModel \<Rightarrow> mjtDisableBit \<Rightarrow> bool" where
  "mjDISABLED m x = (x \<in> disableflags (opt m))"

definition mjENABLED :: "mjModel \<Rightarrow> mjtEnableBit \<Rightarrow> bool" where
  "mjENABLED m x = (x \<in> enableflags (opt m))"


subsection \<open>Collaborators\<close>

text \<open>
  The routines, callbacks and constants that \<^verbatim>\<open>engine_forward.c\<close> uses and that live in
  other files are parameters of the embedding, gathered in one record.
  \<^item> A routine called as \<^verbatim>\<open>f(m, d)\<close> for its effect on \<^verbatim>\<open>mjData\<close> is an arbitrary
    function from the data to the data.
  \<^item> A routine that delivers through an output pointer (\<^verbatim>\<open>mj_solveM(m, d, x, y, n)\<close>,
    \<^verbatim>\<open>mj_mulJacVec(m, d, res, vec)\<close>, ...) is a function of the model, the data and its
    inputs to that output.
  \<^item> A callback is optional (a null function pointer is \<open>None\<close>).
\<close>

record env =
  mju_isBad :: "mjtNum \<Rightarrow> bool"
  mj_isSparse :: "mjModel \<Rightarrow> bool"
  mjMINVAL :: mjtNum
  mjNGAIN :: int
  mjNBIAS :: int
  mjNDYN :: int
  mj_resetData :: "mjModel \<Rightarrow> mjData \<Rightarrow> mjData"
  mj_kinematics :: "mjModel \<Rightarrow> mjData \<Rightarrow> mjData"
  mj_comPos :: "mjModel \<Rightarrow> mjData \<Rightarrow> mjData"
  mj_camlight :: "mjModel \<Rightarrow> mjData \<Rightarrow> mjData"
  mj_tendon :: "mjModel \<Rightarrow> mjData \<Rightarrow> mjData"
  mj_transmission :: "mjModel \<Rightarrow> mjData \<Rightarrow> mjData"
  mj_crb :: "mjModel \<Rightarrow> mjData \<Rightarrow> mjData"
  mj_factorM :: "mjModel \<Rightarrow> mjData \<Rightarrow> mjData"
  mj_collision :: "mjModel \<Rightarrow> mjData \<Rightarrow> mjData"
  mj_makeConstraint :: "mjModel \<Rightarrow> mjData \<Rightarrow> mjData"
  mj_projectConstraint :: "mjModel \<Rightarrow> mjData \<Rightarrow> mjData"
  mj_comVel :: "mjModel \<Rightarrow> mjData \<Rightarrow> mjData"
  mj_passive :: "mjModel \<Rightarrow> mjData \<Rightarrow> mjData"
  mj_referenceConstraint :: "mjModel \<Rightarrow> mjData \<Rightarrow> mjData"
  mj_sensorPos :: "mjModel \<Rightarrow> mjData \<Rightarrow> mjData"
  mj_sensorVel :: "mjModel \<Rightarrow> mjData \<Rightarrow> mjData"
  mj_sensorAcc :: "mjModel \<Rightarrow> mjData \<Rightarrow> mjData"
  mj_energyPos :: "mjModel \<Rightarrow> mjData \<Rightarrow> mjData"
  mj_energyVel :: "mjModel \<Rightarrow> mjData \<Rightarrow> mjData"
  mj_compareFwdInv :: "mjModel \<Rightarrow> mjData \<Rightarrow> mjData"
  mjd_smooth_vel :: "mjModel \<Rightarrow> mjData \<Rightarrow> mjData"
  mj_solPGS :: "mjModel \<Rightarrow> mjData \<Rightarrow> int \<Rightarrow> mjData"
  mj_solCG :: "mjModel \<Rightarrow> mjData \<Rightarrow> int \<Rightarrow> mjData"
  mj_solNewton :: "mjModel \<Rightarrow> mjData \<Rightarrow> int \<Rightarrow> mjData"
  mj_solNoSlip :: "mjModel \<Rightarrow> mjData \<Rightarrow> int \<Rightarrow> mjData"
  mj_constraintUpdate :: "mjModel \<Rightarrow> mjData \<Rightarrow> arr \<Rightarrow> int \<Rightarrow> mjData \<times> mjtNum"
    \<comment> \<open>\<^verbatim>\<open>mj_constraintUpdate(m, d, jar, &cost, flg)\<close>: the updated data and the cost\<close>
  mjcb_control :: "(mjModel \<Rightarrow> mjData \<Rightarrow> mjData) option"
  mjcb_act_gain :: "(mjModel \<Rightarrow> mjData \<Rightarrow> int \<Rightarrow> mjtNum) option"
  mjcb_act_bias :: "(mjModel \<Rightarrow> mjData \<Rightarrow> int \<Rightarrow> mjtNum) option"
  mjcb_act_dyn :: "(mjModel \<Rightarrow> mjData \<Rightarrow> int \<Rightarrow> mjtNum) option"
  mj_rne :: "mjModel \<Rightarrow> mjData \<Rightarrow> int \<Rightarrow> arr"
  mj_solveM :: "mjModel \<Rightarrow> mjData \<Rightarrow> arr \<Rightarrow> int \<Rightarrow> arr"
  mj_mulJacVec :: "mjModel \<Rightarrow> mjData \<Rightarrow> arr \<Rightarrow> arr"
  mj_mulM :: "mjModel \<Rightarrow> mjData \<Rightarrow> arr \<Rightarrow> arr"
  mj_xfrcAccumulate :: "mjModel \<Rightarrow> mjData \<Rightarrow> arr \<Rightarrow> arr"
    \<comment> \<open>\<^verbatim>\<open>mj_xfrcAccumulate(m, d, qfrc)\<close>: \<^verbatim>\<open>qfrc\<close> after the call, from \<^verbatim>\<open>qfrc\<close> before it\<close>
  mj_integratePos :: "mjModel \<Rightarrow> arr \<Rightarrow> arr \<Rightarrow> mjtNum \<Rightarrow> arr"
    \<comment> \<open>\<^verbatim>\<open>mj_integratePos(m, qpos, qvel, dt)\<close>: \<^verbatim>\<open>qpos\<close> after the call\<close>
  mj_makeMSparse :: "mjModel \<Rightarrow> mjData \<Rightarrow> iarr \<times> iarr \<times> iarr"
  mj_setMSparse :: "mjModel \<Rightarrow> mjData \<Rightarrow> iarr \<Rightarrow> iarr \<Rightarrow> iarr \<Rightarrow> arr"
  mju_factorLUSparse :: "arr \<Rightarrow> int \<Rightarrow> iarr \<Rightarrow> iarr \<Rightarrow> iarr \<Rightarrow> arr"
  mju_solveLUSparse :: "arr \<Rightarrow> arr \<Rightarrow> int \<Rightarrow> iarr \<Rightarrow> iarr \<Rightarrow> iarr \<Rightarrow> arr"
  mju_mulMatVecSparse :: "arr \<Rightarrow> arr \<Rightarrow> int \<Rightarrow> iarr \<Rightarrow> iarr \<Rightarrow> iarr \<Rightarrow> arr"
  mju_muscleGain :: "mjtNum \<Rightarrow> mjtNum \<Rightarrow> arr \<Rightarrow> mjtNum \<Rightarrow> arr \<Rightarrow> mjtNum"
  mju_muscleBias :: "mjtNum \<Rightarrow> arr \<Rightarrow> mjtNum \<Rightarrow> arr \<Rightarrow> mjtNum"
  mju_muscleDynamics :: "mjtNum \<Rightarrow> mjtNum \<Rightarrow> arr \<Rightarrow> mjtNum"

datatype mjerror =
    Unknown_solver_type int  \<comment> \<open>\<^verbatim>\<open>mju_error_i("Unknown solver type %d", ...)\<close>\<close>
  | Supported_RK_orders  \<comment> \<open>\<^verbatim>\<open>mju_error("Supported RK orders: N=4")\<close>\<close>
  | Invalid_integrator  \<comment> \<open>\<^verbatim>\<open>mju_error("Invalid integrator")\<close>\<close>

definition enter :: "string \<Rightarrow> mjData \<Rightarrow> mjData" where
  \<comment> \<open>records that a routine of this file is entered\<close>
  "enter name d = d\<lparr>calls := calls d @ [name]\<rparr>"

definition call :: "string \<Rightarrow> (mjData \<Rightarrow> mjData) \<Rightarrow> mjData \<Rightarrow> mjData" where
  \<comment> \<open>a call of a collaborator \<^verbatim>\<open>f(m, d)\<close>, recorded under its name\<close>
  "call name f d = (f d)\<lparr>calls := calls d @ [name]\<rparr>"

definition new_calls :: "mjData \<Rightarrow> mjData \<Rightarrow> string list" where
  \<comment> \<open>the routines entered between the state \<open>d\<close> and the later state \<open>d'\<close>\<close>
  "new_calls d d' = drop (length (calls d)) (calls d')"

definition integratePos :: "env \<Rightarrow> mjModel \<Rightarrow> arr \<Rightarrow> arr \<Rightarrow> mjtNum \<Rightarrow> arr" where
  \<comment> \<open>\<^verbatim>\<open>mj_integratePos\<close> writes the \<open>nq\<close> entries of \<^verbatim>\<open>qpos\<close>\<close>
  "integratePos env m qp qv h = mju_copy qp (mj_integratePos env m qp qv h) (nq m)"

text \<open>
  Modelled from the spec: \<^verbatim>\<open>mj_warning\<close> (\<^verbatim>\<open>engine_io.c\<close>) is not part of the sources at
  hand. Spec, section 7: "emit a warning, increment counter, set \<open>lastinfo\<close> to the index".
\<close>

definition mj_warning :: "mjData \<Rightarrow> mjtWarning \<Rightarrow> int \<Rightarrow> mjData" where
  "mj_warning d w info =
     d\<lparr>warning := (warning d)(w := \<lparr>lastinfo = info, number = number (warning d w) + 1\<rparr>)\<rparr>"

subsection \<open>Check values\<close>

definition mj_checkPos :: "env \<Rightarrow> mjModel \<Rightarrow> mjData \<Rightarrow> mjData" where
  "mj_checkPos env m d0 =
     (let d = enter ''mj_checkPos'' d0;
          i = scan_loop (mju_isBad env) (qpos d) 0 (nq m)
      in if i < nq m then
           (let d = mj_warning d mjWARN_BADQPOS i;
                d = call ''mj_resetData'' (mj_resetData env m) d;
                d = d\<lparr>warning := (warning d)(mjWARN_BADQPOS :=
                      (warning d mjWARN_BADQPOS)\<lparr>number := number (warning d mjWARN_BADQPOS) + 1\<rparr>)\<rparr>
            in d\<lparr>warning := (warning d)(mjWARN_BADQPOS :=
                      (warning d mjWARN_BADQPOS)\<lparr>lastinfo := i\<rparr>)\<rparr>)
         else d)"

definition mj_checkVel :: "env \<Rightarrow> mjModel \<Rightarrow> mjData \<Rightarrow> mjData" where
  "mj_checkVel env m d0 =
     (let d = enter ''mj_checkVel'' d0;
          i = scan_loop (mju_isBad env) (qvel d) 0 (nv m)
      in if i < nv m then
           (let d = mj_warning d mjWARN_BADQVEL i;
                d = call ''mj_resetData'' (mj_resetData env m) d;
                d = d\<lparr>warning := (warning d)(mjWARN_BADQVEL :=
                      (warning d mjWARN_BADQVEL)\<lparr>number := number (warning d mjWARN_BADQVEL) + 1\<rparr>)\<rparr>
            in d\<lparr>warning := (warning d)(mjWARN_BADQVEL :=
                      (warning d mjWARN_BADQVEL)\<lparr>lastinfo := i\<rparr>)\<rparr>)
         else d)"

subsection \<open>Solver components\<close>

definition mj_fwdPosition :: "env \<Rightarrow> mjModel \<Rightarrow> mjData \<Rightarrow> mjData" where
  "mj_fwdPosition env m d0 =
     (let d = enter ''mj_fwdPosition'' d0;
          d = call ''mj_kinematics'' (mj_kinematics env m) d;
          d = call ''mj_comPos'' (mj_comPos env m) d;
          d = call ''mj_camlight'' (mj_camlight env m) d;
          d = call ''mj_tendon'' (mj_tendon env m) d;
          d = call ''mj_transmission'' (mj_transmission env m) d;
          d = call ''mj_crb'' (mj_crb env m) d;
          d = call ''mj_factorM'' (mj_factorM env m) d;
          d = call ''mj_collision'' (mj_collision env m) d;
          d = call ''mj_makeConstraint'' (mj_makeConstraint env m) d
      in call ''mj_projectConstraint'' (mj_projectConstraint env m) d)"

definition mj_fwdVelocity :: "env \<Rightarrow> mjModel \<Rightarrow> mjData \<Rightarrow> mjData" where
  "mj_fwdVelocity env m d0 =
     (let d = enter ''mj_fwdVelocity'' d0;
          d = (if mj_isSparse env m
               then d\<lparr>ten_velocity := mju_copy (ten_velocity d)
                      (mju_mulMatVecSparse env (ten_J d) (qvel d) (ntendon m)
                         (ten_J_rownnz d) (ten_J_rowadr d) (ten_J_colind d)) (ntendon m)\<rparr>
               else d\<lparr>ten_velocity :=
                      mju_mulMatVec (ten_velocity d) (ten_J d) (qvel d) (ntendon m) (nv m)\<rparr>);
          d = d\<lparr>actuator_velocity :=
                mju_mulMatVec (actuator_velocity d) (actuator_moment d) (qvel d) (nu m) (nv m)\<rparr>;
          d = call ''mj_comVel'' (mj_comVel env m) d;
          d = call ''mj_passive'' (mj_passive env m) d;
          d = call ''mj_referenceConstraint'' (mj_referenceConstraint env m) d
      in d\<lparr>qfrc_bias := mju_copy (qfrc_bias d) (mj_rne env m d 0) (nv m)\<rparr>)"

text \<open>The parts of \<^verbatim>\<open>mj_fwdActuation\<close>, in the order of the source.\<close>

definition fwdActuation_check_ctrl :: "env \<Rightarrow> mjModel \<Rightarrow> mjData \<Rightarrow> mjData" where
  \<comment> \<open>check controls, set to 0 if any are bad\<close>
  "fwdActuation_check_ctrl env m d0 =
     (let i = scan_loop (mju_isBad env) (ctrl d0) 0 (nu m)
      in if i < nu m then
           (let d = mj_warning d0 mjWARN_BADCTRL i
            in d\<lparr>ctrl := mju_zero (ctrl d) (nu m)\<rparr>)
         else d0)"

definition fwdActuation_force :: "env \<Rightarrow> mjModel \<Rightarrow> int \<Rightarrow> mjData \<Rightarrow> mjData" where
  \<comment> \<open>one round of the loop "force = gain .* [ctrl/act] + bias"\<close>
  "fwdActuation_force env m i d0 =
     (let d = (if actuator_ctrllimited m i \<noteq> 0 \<and> \<not> mjDISABLED m mjDSBL_CLAMPCTRL then
                 (if ctrl d0 i < actuator_ctrlrange m (2 * i)
                  then d0\<lparr>ctrl := (ctrl d0)(i := actuator_ctrlrange m (2 * i))\<rparr>
                  else if ctrl d0 i > actuator_ctrlrange m (2 * i + 1)
                  then d0\<lparr>ctrl := (ctrl d0)(i := actuator_ctrlrange m (2 * i + 1))\<rparr>
                  else d0)
               else d0);
          prm = ptr_add (actuator_gainprm m) (mjNGAIN env * i);
          gain = (if actuator_gaintype m i = mjGAIN_FIXED then prm 0
                  else if actuator_gaintype m i = mjGAIN_MUSCLE then
                    mju_muscleGain env (actuator_length d i) (actuator_velocity d i)
                      (ptr_add (actuator_lengthrange m) (2 * i)) (actuator_acc0 m i) prm
                  else (case mjcb_act_gain env of Some cb \<Rightarrow> cb m d i | None \<Rightarrow> 1));
          d = (if actuator_dyntype m i = mjDYN_NONE
               then d\<lparr>actuator_force := (actuator_force d)(i := gain * ctrl d i)\<rparr>
               else d\<lparr>actuator_force := (actuator_force d)(i := gain * act d (i - (nu m - na m)))\<rparr>);
          prm = ptr_add (actuator_biasprm m) (mjNBIAS env * i);
          bias = (if actuator_biastype m i = mjBIAS_NONE then 0
                  else if actuator_biastype m i = mjBIAS_AFFINE then
                    prm 0 + prm 1 * actuator_length d i + prm 2 * actuator_velocity d i
                  else if actuator_biastype m i = mjBIAS_MUSCLE then
                    mju_muscleBias env (actuator_length d i)
                      (ptr_add (actuator_lengthrange m) (2 * i)) (actuator_acc0 m i) prm
                  else (case mjcb_act_bias env of Some cb \<Rightarrow> cb m d i | None \<Rightarrow> 0))
      in d\<lparr>actuator_force := (actuator_force d)(i := actuator_force d i + bias)\<rparr>)"

definition fwdActuation_clamp_force :: "mjModel \<Rightarrow> int \<Rightarrow> mjData \<Rightarrow> mjData" where
  \<comment> \<open>one round of the loop "clamp actuator\_force"\<close>
  "fwdActuation_clamp_force m i d =
     (if actuator_forcelimited m i \<noteq> 0 then
        (if actuator_force d i < actuator_forcerange m (2 * i)
         then d\<lparr>actuator_force := (actuator_force d)(i := actuator_forcerange m (2 * i))\<rparr>
         else if actuator_force d i > actuator_forcerange m (2 * i + 1)
         then d\<lparr>actuator_force := (actuator_force d)(i := actuator_forcerange m (2 * i + 1))\<rparr>
         else d)
      else d)"

definition fwdActuation_act_dot :: "env \<Rightarrow> mjModel \<Rightarrow> int \<Rightarrow> mjData \<Rightarrow> mjData" where
  \<comment> \<open>one round of the loop "act\_dot for stateful actuators"\<close>
  "fwdActuation_act_dot env m i d =
     (let prm = ptr_add (actuator_dynprm m) (i * mjNDYN env);
          j = i - (nu m - na m)
      in if actuator_dyntype m i = mjDYN_INTEGRATOR
         then d\<lparr>act_dot := (act_dot d)(j := ctrl d i)\<rparr>
         else if actuator_dyntype m i = mjDYN_FILTER
         then (let tau = mju_max (mjMINVAL env) (prm 0)
               in d\<lparr>act_dot := (act_dot d)(j := (ctrl d i - act d j) / tau)\<rparr>)
         else if actuator_dyntype m i = mjDYN_MUSCLE
         then d\<lparr>act_dot := (act_dot d)(j := mju_muscleDynamics env (ctrl d i) (act d j) prm)\<rparr>
         else (case mjcb_act_dyn env of
                 Some cb \<Rightarrow> d\<lparr>act_dot := (act_dot d)(j := cb m d i)\<rparr>
               | None \<Rightarrow> d\<lparr>act_dot := (act_dot d)(j := 0)\<rparr>))"

definition mj_fwdActuation :: "env \<Rightarrow> mjModel \<Rightarrow> mjData \<Rightarrow> mjData" where
  "mj_fwdActuation env m d0 =
     (let d = enter ''mj_fwdActuation'' d0;
          d = d\<lparr>qfrc_actuator := mju_zero (qfrc_actuator d) (nv m)\<rparr>;
          d = (if nu m \<noteq> 0 then d\<lparr>actuator_force := mju_zero (actuator_force d) (nu m)\<rparr> else d);
          d = fwdActuation_check_ctrl env m d
      in if nu m = 0 \<or> mjDISABLED m mjDSBL_ACTUATION then d
         else
           (let d = for_loop 0 (nu m) (fwdActuation_force env m) d;
                d = for_loop 0 (nu m) (fwdActuation_clamp_force m) d;
                d = d\<lparr>qfrc_actuator := mju_mulMatTVec (qfrc_actuator d) (actuator_moment d)
                      (actuator_force d) (nu m) (nv m)\<rparr>
            in for_loop (nu m - na m) (nu m) (fwdActuation_act_dot env m) d))"

definition mj_fwdAcceleration :: "env \<Rightarrow> mjModel \<Rightarrow> mjData \<Rightarrow> mjData" where
  "mj_fwdAcceleration env m d0 =
     (let d = enter ''mj_fwdAcceleration'' d0;
          d = d\<lparr>qfrc_smooth := mju_sub (qfrc_smooth d) (qfrc_passive d) (qfrc_bias d) (nv m)\<rparr>;
          d = d\<lparr>qfrc_smooth := mju_addTo (qfrc_smooth d) (qfrc_applied d) (nv m)\<rparr>;
          d = d\<lparr>qfrc_smooth := mju_addTo (qfrc_smooth d) (qfrc_actuator d) (nv m)\<rparr>;
          d = d\<lparr>qfrc_smooth :=
                mju_copy (qfrc_smooth d) (mj_xfrcAccumulate env m d (qfrc_smooth d)) (nv m)\<rparr>
      in d\<lparr>qacc_smooth := mju_copy (qacc_smooth d) (mj_solveM env m d (qfrc_smooth d) 1) (nv m)\<rparr>)"

definition constraintUpdate :: "env \<Rightarrow> mjModel \<Rightarrow> mjData \<Rightarrow> arr \<Rightarrow> int \<Rightarrow> mjData \<times> mjtNum" where
  \<comment> \<open>a call of \<^verbatim>\<open>mj_constraintUpdate(m, d, jar, &cost, flg)\<close>, recorded under its name\<close>
  "constraintUpdate env m d jar flg =
     (case mj_constraintUpdate env m d jar flg of
        (d', cost) \<Rightarrow> (d'\<lparr>calls := calls d @ [''mj_constraintUpdate'']\<rparr>, cost))"

text \<open>The parts of \<^verbatim>\<open>warmstart\<close>, in the order of the source.\<close>

definition warmstart_update :: "env \<Rightarrow> mjModel \<Rightarrow> mjData \<Rightarrow> mjData \<times> mjtNum" where
  \<comment> \<open>"start with qacc = qacc\_warmstart", "compute jar(qacc\_warmstart)", "update
      constraints, save cost(qacc\_warmstart)": the data and \<^verbatim>\<open>cost_warmstart\<close>\<close>
  "warmstart_update env m d0 =
     (let d = d0\<lparr>qacc := mju_copy (qacc d0) (qacc_warmstart d0) (nv m)\<rparr>;
          jar = mju_copy scratch (mj_mulJacVec env m d (qacc_warmstart d)) (nefc d0);
          jar = mju_subFrom jar (efc_aref d) (nefc d0)
      in constraintUpdate env m d jar 0)"

definition warmstart_PGS :: "env \<Rightarrow> mjModel \<Rightarrow> int \<Rightarrow> mjData \<Rightarrow> mjtNum" where
  \<comment> \<open>"cost(force\_warmstart)": the final value of \<^verbatim>\<open>PGS_warmstart\<close>\<close>
  "warmstart_PGS env m nefc0 d =
     (let PGS_warmstart = mju_dot (efc_force d) (efc_b d) nefc0;
          ARf = (if mj_isSparse env m
                 then mju_copy scratch
                        (mju_mulMatVecSparse env (efc_AR d) (efc_force d) nefc0
                           (efc_AR_rownnz d) (efc_AR_rowadr d) (efc_AR_colind d)) nefc0
                 else mju_mulMatVec scratch (efc_AR d) (efc_force d) nefc0 nefc0)
      in PGS_warmstart + 0.5 * mju_dot (efc_force d) ARf nefc0)"

definition warmstart_Gauss :: "env \<Rightarrow> mjModel \<Rightarrow> mjData \<Rightarrow> mjtNum \<Rightarrow> mjtNum" where
  \<comment> \<open>"add Gauss to cost(qacc\_warmstart)": the new value of \<^verbatim>\<open>cost_warmstart\<close>\<close>
  "warmstart_Gauss env m d cost_warmstart =
     (let Ma = mju_copy scratch (mj_mulM env m d (qacc_warmstart d)) (nv m)
      in for_loop 0 (nv m)
           (\<lambda>i c. c + 0.5 * (Ma i - qfrc_smooth d i) * (qacc_warmstart d i - qacc_smooth d i))
           cost_warmstart)"

definition warmstart :: "env \<Rightarrow> mjModel \<Rightarrow> mjData \<Rightarrow> mjData" where
  "warmstart env m d0 =
     (let d = enter ''warmstart'' d0;
          nefc0 = nefc d
      in if \<not> mjDISABLED m mjDSBL_WARMSTART then
           (let (d, cost_warmstart) = warmstart_update env m d
            in if solver (opt m) = mjSOL_PGS then
                 (if warmstart_PGS env m nefc0 d > 0
                  then (let d = d\<lparr>efc_force := mju_zero (efc_force d) nefc0\<rparr>
                        in d\<lparr>qfrc_constraint := mju_zero (qfrc_constraint d) (nv m)\<rparr>)
                  else d)
               else
                 (let cost_warmstart = warmstart_Gauss env m d cost_warmstart;
                      (d, cost_smooth) = constraintUpdate env m d (efc_b d) 0
                  in if cost_warmstart > cost_smooth
                     then d\<lparr>qacc := mju_copy (qacc d) (qacc_smooth d) (nv m)\<rparr>
                     else d))
         else
           (let d = d\<lparr>qacc := mju_copy (qacc d) (qacc_smooth d) (nv m)\<rparr>
            in d\<lparr>efc_force := mju_zero (efc_force d) nefc0\<rparr>))"

definition mj_fwdConstraint :: "env \<Rightarrow> mjModel \<Rightarrow> mjData \<Rightarrow> mjerror + mjData" where
  "mj_fwdConstraint env m d0 =
     (let d = enter ''mj_fwdConstraint'' d0;
          nefc0 = nefc d
      in if nefc0 = 0 then
           (let d = d\<lparr>qacc := mju_copy (qacc d) (qacc_smooth d) (nv m)\<rparr>;
                d = d\<lparr>qacc_warmstart := mju_copy (qacc_warmstart d) (qacc_smooth d) (nv m)\<rparr>;
                d = d\<lparr>qfrc_constraint := mju_zero (qfrc_constraint d) (nv m)\<rparr>
            in Inr (d\<lparr>solver_iter := 0\<rparr>))
         else
           (let d = d\<lparr>efc_b := mju_copy (efc_b d) (mj_mulJacVec env m d (qacc_smooth d)) nefc0\<rparr>;
                d = d\<lparr>efc_b := mju_subFrom (efc_b d) (efc_aref d) nefc0\<rparr>;
                d = warmstart env m d;
                d = d\<lparr>solver_iter := 0\<rparr>
            in case (if solver (opt m) = mjSOL_PGS
                     then Inr (call ''mj_solPGS'' (\<lambda>d. mj_solPGS env m d (iterations (opt m))) d)
                     else if solver (opt m) = mjSOL_CG
                     then Inr (call ''mj_solCG'' (\<lambda>d. mj_solCG env m d (iterations (opt m))) d)
                     else if solver (opt m) = mjSOL_NEWTON
                     then Inr (call ''mj_solNewton'' (\<lambda>d. mj_solNewton env m d (iterations (opt m))) d)
                     else Inl (Unknown_solver_type (solver (opt m)))) of
                 Inl e \<Rightarrow> Inl e
               | Inr d \<Rightarrow>
                   (let d = d\<lparr>qacc_warmstart := mju_copy (qacc_warmstart d) (qacc d) (nv m)\<rparr>
                    in Inr (if noslip_iterations (opt m) > 0
                            then call ''mj_solNoSlip''
                                   (\<lambda>d. mj_solNoSlip env m d (noslip_iterations (opt m))) d
                            else d))))"

subsection \<open>Integrators\<close>

definition clamp_act :: "mjModel \<Rightarrow> int \<Rightarrow> mjData \<Rightarrow> mjData" where
  \<comment> \<open>one round of the loop "clamp activations" (the same text in \<^verbatim>\<open>mj_Euler\<close> and
      \<^verbatim>\<open>mj_RungeKutta\<close>)\<close>
  "clamp_act m i d =
     (let iu = i + nu m - na m
      in if actuator_actlimited m iu \<noteq> 0 then
           (let min = actuator_actrange m (2 * iu);
                max = actuator_actrange m (2 * iu + 1)
            in if act d i < min then d\<lparr>act := (act d)(i := min)\<rparr>
               else if act d i > max then d\<lparr>act := (act d)(i := max)\<rparr>
               else d)
         else d)"

text \<open>The parts of \<^verbatim>\<open>mj_Euler\<close>, in the order of the source.\<close>

definition Euler_velocity :: "env \<Rightarrow> mjModel \<Rightarrow> mjData \<Rightarrow> mjData" where
  \<comment> \<open>"check for dof damping", then "no damping: explicit velocity integration" or
      "damping: integrate implicitly"\<close>
  "Euler_velocity env m d0 =
     (let i = scan_loop (\<lambda>x. x > 0) (dof_damping m) 0 (nv m)
      in if i \<ge> nv m
         then d0\<lparr>qvel := mju_addToScl (qvel d0) (qacc d0) (timestep (opt m)) (nv m)\<rparr>
         else
           (let saveM = mju_copy scratch (qM d0) (nM m);
                saveLD = mju_copy scratch (qLD d0) (nM m);
                saveLDiagInv = mju_copy scratch (qLDiagInv d0) (nv m);
                saveLDiagSqrtInv = mju_copy scratch (qLDiagSqrtInv d0) (nv m);
                d = for_loop 0 (nv m)
                      (\<lambda>i d. d\<lparr>qM := (qM d)(dof_Madr m i :=
                                 qM d (dof_Madr m i) + timestep (opt m) * dof_damping m i)\<rparr>) d0;
                d = call ''mj_factorM'' (mj_factorM env m) d;
                qfrc = mju_add scratch (qfrc_smooth d) (qfrc_constraint d) (nv m);
                qacc' = mju_copy scratch (mj_solveM env m d qfrc 1) (nv m);
                d = d\<lparr>qvel := mju_addToScl (qvel d) qacc' (timestep (opt m)) (nv m)\<rparr>;
                d = d\<lparr>qM := mju_copy (qM d) saveM (nM m)\<rparr>;
                d = d\<lparr>qLD := mju_copy (qLD d) saveLD (nM m)\<rparr>;
                d = d\<lparr>qLDiagInv := mju_copy (qLDiagInv d) saveLDiagInv (nv m)\<rparr>
            in d\<lparr>qLDiagSqrtInv := mju_copy (qLDiagSqrtInv d) saveLDiagSqrtInv (nv m)\<rparr>))"

definition Euler_act :: "mjModel \<Rightarrow> mjData \<Rightarrow> mjData" where
  \<comment> \<open>"update act"\<close>
  "Euler_act m d0 =
     (if na m \<noteq> 0
      then (let d = d0\<lparr>act := mju_addToScl (act d0) (act_dot d0) (timestep (opt m)) (na m)\<rparr>
            in for_loop 0 (na m) (clamp_act m) d)
      else d0)"

definition mj_Euler :: "env \<Rightarrow> mjModel \<Rightarrow> mjData \<Rightarrow> mjData" where
  "mj_Euler env m d0 =
     (let d = enter ''mj_Euler'' d0;
          d = Euler_velocity env m d;
          d = Euler_act m d;
          d = d\<lparr>qpos := integratePos env m (qpos d) (qvel d) (timestep (opt m))\<rparr>
      in d\<lparr>time := time d + timestep (opt m)\<rparr>)"

definition mj_implicit :: "env \<Rightarrow> mjModel \<Rightarrow> mjData \<Rightarrow> mjData" where
  "mj_implicit env m d0 =
     (let d = enter ''mj_implicit'' d0;
          d = (case mj_makeMSparse env m d of
                 (rownnz, rowadr, colind) \<Rightarrow>
                   d\<lparr>D_rownnz := rownnz, D_rowadr := rowadr, D_colind := colind\<rparr>);
          d = call ''mjd_smooth_vel'' (mjd_smooth_vel env m) d;
          d = d\<lparr>qLU := mju_copy (qLU d)
                (mj_setMSparse env m d (D_rownnz d) (D_rowadr d) (D_colind d)) (nD m)\<rparr>;
          d = d\<lparr>qLU := mju_addToScl (qLU d) (qDeriv d) (- timestep (opt m)) (nD m)\<rparr>;
          d = d\<lparr>qLU := mju_copy (qLU d)
                (mju_factorLUSparse env (qLU d) (nv m) (D_rownnz d) (D_rowadr d) (D_colind d)) (nD m)\<rparr>;
          qfrc = mju_add scratch (qfrc_smooth d) (qfrc_constraint d) (nv m);
          qacc' = mju_copy scratch
                    (mju_solveLUSparse env (qLU d) qfrc (nv m) (D_rownnz d) (D_rowadr d) (D_colind d))
                    (nv m);
          d = d\<lparr>qvel := mju_addToScl (qvel d) qacc' (timestep (opt m)) (nv m)\<rparr>;
          d = (if na m \<noteq> 0
               then d\<lparr>act := mju_addToScl (act d) (act_dot d) (timestep (opt m)) (na m)\<rparr>
               else d);
          d = d\<lparr>qpos := integratePos env m (qpos d) (qvel d) (timestep (opt m))\<rparr>
      in d\<lparr>time := time d + timestep (opt m)\<rparr>)"

subsection \<open>Top-level API\<close>

definition mj_forwardSkip :: "env \<Rightarrow> mjModel \<Rightarrow> mjData \<Rightarrow> int \<Rightarrow> int \<Rightarrow> mjerror + mjData" where
  "mj_forwardSkip env m d0 skipstage skipsensor =
     (let d = enter ''mj_forwardSkip'' d0;
          d = (if skipstage < mjSTAGE_POS then
                 (let d = mj_fwdPosition env m d;
                      d = (if skipsensor = 0 then call ''mj_sensorPos'' (mj_sensorPos env m) d else d)
                  in if mjENABLED m mjENBL_ENERGY
                     then call ''mj_energyPos'' (mj_energyPos env m) d else d)
               else d);
          d = (if skipstage < mjSTAGE_VEL then
                 (let d = mj_fwdVelocity env m d;
                      d = (if skipsensor = 0 then call ''mj_sensorVel'' (mj_sensorVel env m) d else d)
                  in if mjENABLED m mjENBL_ENERGY
                     then call ''mj_energyVel'' (mj_energyVel env m) d else d)
               else d);
          d = (case mjcb_control env of
                 Some cb \<Rightarrow> call ''mjcb_control'' (cb m) d
               | None \<Rightarrow> d);
          d = mj_fwdActuation env m d;
          d = mj_fwdAcceleration env m d
      in case mj_fwdConstraint env m d of
           Inl e \<Rightarrow> Inl e
         | Inr d \<Rightarrow>
             Inr (if skipsensor = 0 then call ''mj_sensorAcc'' (mj_sensorAcc env m) d else d))"

definition mj_forward :: "env \<Rightarrow> mjModel \<Rightarrow> mjData \<Rightarrow> mjerror + mjData" where
  "mj_forward env m d0 = mj_forwardSkip env m (enter ''mj_forward'' d0) mjSTAGE_NONE 0"

definition mj_checkAcc :: "env \<Rightarrow> mjModel \<Rightarrow> mjData \<Rightarrow> mjerror + mjData" where
  "mj_checkAcc env m d0 =
     (let d = enter ''mj_checkAcc'' d0;
          i = scan_loop (mju_isBad env) (qacc d) 0 (nv m)
      in if i < nv m then
           (let d = mj_warning d mjWARN_BADQACC i;
                d = call ''mj_resetData'' (mj_resetData env m) d;
                d = d\<lparr>warning := (warning d)(mjWARN_BADQACC :=
                      (warning d mjWARN_BADQACC)\<lparr>number := number (warning d mjWARN_BADQACC) + 1\<rparr>)\<rparr>;
                d = d\<lparr>warning := (warning d)(mjWARN_BADQACC :=
                      (warning d mjWARN_BADQACC)\<lparr>lastinfo := i\<rparr>)\<rparr>
            in mj_forward env m d)
         else Inr d)"

text \<open>The Runge-Kutta tableau.\<close>

definition arr_of :: "mjtNum list \<Rightarrow> arr" where
  \<comment> \<open>a constant array with an initialiser list\<close>
  "arr_of xs = (\<lambda>i. if 0 \<le> i \<and> i < int (length xs) then xs ! nat i else 0)"

definition RK4_A :: arr where
  "RK4_A = arr_of [0.5, 0, 0,
                   0, 0.5, 0,
                   0, 0, 1]"

definition RK4_B :: arr where
  "RK4_B = arr_of [1 / 6, 1 / 3, 1 / 3, 1 / 6]"

definition RungeKutta_CT :: "arr \<Rightarrow> int \<Rightarrow> mjtNum \<Rightarrow> mjtNum \<Rightarrow> int \<Rightarrow> arr \<times> arr \<Rightarrow> arr \<times> arr" where
  \<comment> \<open>one round of the loop "precompute C and T"\<close>
  "RungeKutta_CT A N time0 h i CT =
     (case CT of (C, T) \<Rightarrow>
        (let C = C(i - 1 := 0);
             C = for_loop 0 i (\<lambda>j C. C(i - 1 := C (i - 1) + A ((i - 1) * (N - 1) + j))) C
         in (C, T(i - 1 := time0 + C (i - 1) * h))))"

definition RungeKutta_dX ::
    "mjModel \<Rightarrow> (int \<Rightarrow> arr) \<Rightarrow> (int \<Rightarrow> arr) \<Rightarrow> (int \<Rightarrow> mjtNum) \<Rightarrow> int \<Rightarrow> arr" where
  \<comment> \<open>"compute dX": the sum over \<open>j < n\<close> of \<open>coef j\<close> times (velocity of \<open>X[j]\<close>, \<open>F[j]\<close>)\<close>
  "RungeKutta_dX m X F coef n =
     (let dX = mju_zero scratch (2 * nv m + na m)
      in for_loop 0 n
           (\<lambda>j dX. let dX = mju_addToScl dX (ptr_add (X j) (nq m)) (coef j) (nv m)
                   in at_offset (nv m) (\<lambda>v. mju_addToScl v (F j) (coef j) (nv m + na m)) dX)
           dX)"

function RungeKutta_stages ::
    "env \<Rightarrow> mjModel \<Rightarrow> int \<Rightarrow> arr \<Rightarrow> arr \<Rightarrow> int \<Rightarrow> mjData \<times> (int \<Rightarrow> arr) \<times> (int \<Rightarrow> arr)
       \<Rightarrow> mjerror + mjData \<times> (int \<Rightarrow> arr) \<times> (int \<Rightarrow> arr)" where
  \<comment> \<open>the loop "compute the remaining X[i], F[i]", from round \<open>i\<close> on\<close>
  "RungeKutta_stages env m N A T i (d, X, F) =
     (if i < N then
        (let dX = RungeKutta_dX m X F (\<lambda>j. A ((i - 1) * (N - 1) + j)) i;
             Xi = mju_copy (X i) (X 0) (nq m + nv m + na m);
             Xi = integratePos env m Xi dX (timestep (opt m));
             Xi = at_offset (nq m)
                    (\<lambda>v. mju_addToScl v (ptr_add dX (nv m)) (timestep (opt m)) (nv m + na m)) Xi;
             d = d\<lparr>qpos := mju_copy (qpos d) Xi (nq m)\<rparr>;
             d = d\<lparr>qvel := mju_copy (qvel d) (ptr_add Xi (nq m)) (nv m)\<rparr>;
             d = (if na m \<noteq> 0
                  then d\<lparr>act := mju_copy (act d) (ptr_add Xi (nq m + nv m)) (na m)\<rparr> else d);
             d = d\<lparr>time := T (i - 1)\<rparr>
         in case mj_forwardSkip env m d mjSTAGE_NONE 1 of
              Inl e \<Rightarrow> Inl e
            | Inr d \<Rightarrow>
                (let Fi = mju_copy (F i) (qacc d) (nv m);
                     Fi = (if na m \<noteq> 0
                           then at_offset (nv m) (\<lambda>v. mju_copy v (act_dot d) (na m)) Fi else Fi)
                 in RungeKutta_stages env m N A T (i + 1) (d, X(i := Xi), F(i := Fi))))
      else Inr (d, X, F))"
  by pat_completeness auto
termination
  by (relation "measure (\<lambda>(env, m, N, A, T, i, s). nat (N - i))") auto

declare RungeKutta_stages.simps [simp del]

text \<open>
  Modelled from the spec: the final update \<^verbatim>\<open>mju_copy(d->qpos, X[0], nq+nv+na)\<close> relies on
  the layout of the buffer of \<^verbatim>\<open>mjData\<close> (\<^verbatim>\<open>mjdata.h\<close>, not part of the sources at hand),
  where \<^verbatim>\<open>qpos\<close>, \<^verbatim>\<open>qvel\<close> and \<^verbatim>\<open>act\<close> are adjacent. Spec, section 4.7.2: the final update
  starts from \<open>X[0].pos\<close>, \<open>X[0].vel\<close> and \<open>X[0].act\<close>. The one copy is therefore three
  copies, one into each array.
\<close>

definition mj_RungeKutta :: "env \<Rightarrow> mjModel \<Rightarrow> mjData \<Rightarrow> int \<Rightarrow> mjerror + mjData" where
  "mj_RungeKutta env m d0 N =
     (let d = enter ''mj_RungeKutta'' d0;
          h = timestep (opt m);
          time0 = time d
      in if N \<noteq> 4 then Inl Supported_RK_orders
         else
           (let A = RK4_A;
                B = RK4_B;
                (C, T) = for_loop 1 N (RungeKutta_CT A N (time d) h) (scratch, scratch);
                X0 = mju_copy scratch (qpos d) (nq m);
                X0 = at_offset (nq m) (\<lambda>v. mju_copy v (qvel d) (nv m)) X0;
                F0 = mju_copy scratch (qacc d) (nv m);
                X0 = (if na m \<noteq> 0
                      then at_offset (nq m + nv m) (\<lambda>v. mju_copy v (act d) (na m)) X0 else X0);
                F0 = (if na m \<noteq> 0
                      then at_offset (nv m) (\<lambda>v. mju_copy v (act_dot d) (na m)) F0 else F0)
            in case RungeKutta_stages env m N A T 1
                      (d, (\<lambda>k. scratch)(0 := X0), (\<lambda>k. scratch)(0 := F0)) of
                 Inl e \<Rightarrow> Inl e
               | Inr (d, X, F) \<Rightarrow>
                   (let dX = RungeKutta_dX m X F B N;
                        d = d\<lparr>time := time0 + h\<rparr>;
                        d = d\<lparr>qpos := mju_copy (qpos d) (X 0) (nq m),
                              qvel := mju_copy (qvel d) (ptr_add (X 0) (nq m)) (nv m),
                              act := mju_copy (act d) (ptr_add (X 0) (nq m + nv m)) (na m)\<rparr>;
                        d = d\<lparr>qpos := integratePos env m (qpos d) dX h\<rparr>;
                        d = d\<lparr>qvel := mju_addToScl (qvel d) (ptr_add dX (nv m)) h (nv m)\<rparr>
                    in Inr (if na m \<noteq> 0
                            then (let d = d\<lparr>act := mju_addToScl (act d) (ptr_add dX (2 * nv m)) h (na m)\<rparr>
                                  in for_loop 0 (na m) (clamp_act m) d)
                            else d))))"

definition mj_step :: "env \<Rightarrow> mjModel \<Rightarrow> mjData \<Rightarrow> mjerror + mjData" where
  "mj_step env m d0 =
     (let d = enter ''mj_step'' d0;
          d = mj_checkPos env m d;
          d = mj_checkVel env m d
      in case mj_forward env m d of
           Inl e \<Rightarrow> Inl e
         | Inr d \<Rightarrow>
            (case mj_checkAcc env m d of
               Inl e \<Rightarrow> Inl e
             | Inr d \<Rightarrow>
                (let d = (if mjENABLED m mjENBL_FWDINV
                          then call ''mj_compareFwdInv'' (mj_compareFwdInv env m) d else d)
                 in if integrator (opt m) = mjINT_EULER then Inr (mj_Euler env m d)
                    else if integrator (opt m) = mjINT_RK4 then mj_RungeKutta env m d 4
                    else if integrator (opt m) = mjINT_IMPLICIT then Inr (mj_implicit env m d)
                    else Inl Invalid_integrator)))"


subsection \<open>Contracts of the collaborators\<close>

text \<open>
  What the properties below ask of the collaborators. Nothing is asked of
  \<^verbatim>\<open>mj_resetData\<close>, which does reset the time.
\<close>

definition keeps_time :: "env \<Rightarrow> bool" where
  \<comment> \<open>no collaborator called for its effect on the data, and no control callback,
      writes \<^verbatim>\<open>d->time\<close>\<close>
  "keeps_time env \<longleftrightarrow>
     (\<forall>m d.
        time (mj_kinematics env m d) = time d \<and>
        time (mj_comPos env m d) = time d \<and>
        time (mj_camlight env m d) = time d \<and>
        time (mj_tendon env m d) = time d \<and>
        time (mj_transmission env m d) = time d \<and>
        time (mj_crb env m d) = time d \<and>
        time (mj_factorM env m d) = time d \<and>
        time (mj_collision env m d) = time d \<and>
        time (mj_makeConstraint env m d) = time d \<and>
        time (mj_projectConstraint env m d) = time d \<and>
        time (mj_comVel env m d) = time d \<and>
        time (mj_passive env m d) = time d \<and>
        time (mj_referenceConstraint env m d) = time d \<and>
        time (mj_sensorPos env m d) = time d \<and>
        time (mj_sensorVel env m d) = time d \<and>
        time (mj_sensorAcc env m d) = time d \<and>
        time (mj_energyPos env m d) = time d \<and>
        time (mj_energyVel env m d) = time d \<and>
        time (mj_compareFwdInv env m d) = time d \<and>
        time (mjd_smooth_vel env m d) = time d \<and>
        (\<forall>n. time (mj_solPGS env m d n) = time d) \<and>
        (\<forall>n. time (mj_solCG env m d n) = time d) \<and>
        (\<forall>n. time (mj_solNewton env m d n) = time d) \<and>
        (\<forall>n. time (mj_solNoSlip env m d n) = time d) \<and>
        (\<forall>jar flg. time (fst (mj_constraintUpdate env m d jar flg)) = time d) \<and>
        (\<forall>cb. mjcb_control env = Some cb \<longrightarrow> time (cb m d) = time d))"

definition constraintUpdate_keeps_acc :: "env \<Rightarrow> mjModel \<Rightarrow> bool" where
  \<comment> \<open>\<^verbatim>\<open>mj_constraintUpdate\<close> writes none of the \<open>nv\<close> entries of \<^verbatim>\<open>qacc\<close>,
      \<^verbatim>\<open>qacc_smooth\<close> and \<^verbatim>\<open>qacc_warmstart\<close>\<close>
  "constraintUpdate_keeps_acc env m \<longleftrightarrow>
     (\<forall>d jar flg i. 0 \<le> i \<and> i < nv m \<longrightarrow>
        qacc (fst (mj_constraintUpdate env m d jar flg)) i = qacc d i \<and>
        qacc_smooth (fst (mj_constraintUpdate env m d jar flg)) i = qacc_smooth d i \<and>
        qacc_warmstart (fst (mj_constraintUpdate env m d jar flg)) i = qacc_warmstart d i)"

definition xfrcAccumulate_adds :: "env \<Rightarrow> bool" where
  \<comment> \<open>\<^verbatim>\<open>mj_xfrcAccumulate(m, d, qfrc)\<close> adds to \<^verbatim>\<open>qfrc\<close> a contribution that does not
      depend on the values it finds there\<close>
  "xfrcAccumulate_adds env \<longleftrightarrow>
     (\<forall>m d qfrc i. mj_xfrcAccumulate env m d qfrc i =
        qfrc i + mj_xfrcAccumulate env m (d\<lparr>qfrc_smooth := scratch\<rparr>) scratch i)"

definition xfrc_accumulated :: "env \<Rightarrow> mjModel \<Rightarrow> mjData \<Rightarrow> arr" where
  \<comment> \<open>the accumulated contribution of the external Cartesian wrenches: what
      \<^verbatim>\<open>mj_xfrcAccumulate\<close> adds to a zero vector\<close>
  "xfrc_accumulated env m d = mj_xfrcAccumulate env m (d\<lparr>qfrc_smooth := scratch\<rparr>) scratch"

subsection \<open>The order of the routines\<close>

definition forwardSkip_routines :: "env \<Rightarrow> mjModel \<Rightarrow> int \<Rightarrow> int \<Rightarrow> string list" where
  \<comment> \<open>the routines that \<^verbatim>\<open>mj_forwardSkip\<close> is shown below to enter, in order, after its own
      entry and before \<^verbatim>\<open>mj_fwdConstraint\<close>\<close>
  "forwardSkip_routines env m skipstage skipsensor =
     (if skipstage < mjSTAGE_POS
      then [''mj_fwdPosition'', ''mj_kinematics'', ''mj_comPos'', ''mj_camlight'', ''mj_tendon'',
            ''mj_transmission'', ''mj_crb'', ''mj_factorM'', ''mj_collision'',
            ''mj_makeConstraint'', ''mj_projectConstraint'']
           @ (if skipsensor = 0 then [''mj_sensorPos''] else [])
           @ (if mjENABLED m mjENBL_ENERGY then [''mj_energyPos''] else [])
      else []) @
     (if skipstage < mjSTAGE_VEL
      then [''mj_fwdVelocity'', ''mj_comVel'', ''mj_passive'', ''mj_referenceConstraint'']
           @ (if skipsensor = 0 then [''mj_sensorVel''] else [])
           @ (if mjENABLED m mjENBL_ENERGY then [''mj_energyVel''] else [])
      else []) @
     (case mjcb_control env of Some cb \<Rightarrow> [''mjcb_control''] | None \<Rightarrow> []) @
     [''mj_fwdActuation'', ''mj_fwdAcceleration'']"

definition fwdConstraint_routines :: "string set" where
  \<comment> \<open>the routines that can be entered inside \<^verbatim>\<open>mj_fwdConstraint\<close>\<close>
  "fwdConstraint_routines =
     {''warmstart'', ''mj_constraintUpdate'', ''mj_solPGS'', ''mj_solCG'', ''mj_solNewton'',
      ''mj_solNoSlip''}"

subsection \<open>A concrete model, data and collaborators\<close>

text \<open>
  A slider with one integrator actuator whose activation is limited to \<open>[-1, 1]\<close>, as in
  the test \<^verbatim>\<open>ActLimited\<close> of \<^verbatim>\<open>engine_forward_test.cc\<close>, with unit mass and collaborators
  simple enough to run by hand. It instantiates the properties below.
\<close>

definition opt0 :: mjOption where
  "opt0 = \<lparr>timestep = 1 / 100, integrator = mjINT_EULER, solver = mjSOL_NEWTON,
           iterations = 100, noslip_iterations = 0, disableflags = {}, enableflags = {}\<rparr>"

definition m0 :: mjModel where
  "m0 = \<lparr>nq = 1, nv = 1, nu = 1, na = 1, nM = 1, nD = 1, ntendon = 0, opt = opt0,
          dof_Madr = (\<lambda>i. 0), dof_damping = (\<lambda>i. 0),
          actuator_dyntype = (\<lambda>i. mjDYN_INTEGRATOR),
          actuator_gaintype = (\<lambda>i. mjGAIN_FIXED),
          actuator_biastype = (\<lambda>i. mjBIAS_AFFINE),
          actuator_ctrllimited = (\<lambda>i. 0),
          actuator_forcelimited = (\<lambda>i. 0),
          actuator_actlimited = (\<lambda>i. 1),
          actuator_dynprm = arr_of [10],
          actuator_gainprm = arr_of [100],
          actuator_biasprm = arr_of [0, - 100, 0],
          actuator_ctrlrange = (\<lambda>i. 0),
          actuator_forcerange = (\<lambda>i. 0),
          actuator_actrange = arr_of [- 1, 1],
          actuator_lengthrange = (\<lambda>i. 0),
          actuator_acc0 = (\<lambda>i. 0)\<rparr>"

definition d0 :: mjData where
  "d0 = \<lparr>time = 0, qpos = (\<lambda>i. 0), qvel = (\<lambda>i. 0), act = (\<lambda>i. 0),
          qacc_warmstart = (\<lambda>i. 0), ctrl = (\<lambda>i. 1), qfrc_applied = (\<lambda>i. 0),
          qacc = (\<lambda>i. 0), act_dot = (\<lambda>i. 0),
          warning = (\<lambda>w. \<lparr>lastinfo = 0, number = 0\<rparr>),
          solver_iter = 0, nefc = 0,
          ten_J_rownnz = (\<lambda>i. 0), ten_J_rowadr = (\<lambda>i. 0), ten_J_colind = (\<lambda>i. 0),
          ten_J = (\<lambda>i. 0), ten_velocity = (\<lambda>i. 0),
          actuator_length = (\<lambda>i. 0), actuator_moment = (\<lambda>i. 1),
          actuator_velocity = (\<lambda>i. 0), actuator_force = (\<lambda>i. 0),
          qM = (\<lambda>i. 1), qLD = (\<lambda>i. 1), qLDiagInv = (\<lambda>i. 1), qLDiagSqrtInv = (\<lambda>i. 1),
          qfrc_bias = (\<lambda>i. 0), qfrc_passive = (\<lambda>i. 0), qfrc_actuator = (\<lambda>i. 0),
          qfrc_smooth = (\<lambda>i. 0), qacc_smooth = (\<lambda>i. 0), qfrc_constraint = (\<lambda>i. 0),
          D_rownnz = (\<lambda>i. 0), D_rowadr = (\<lambda>i. 0), D_colind = (\<lambda>i. 0),
          qDeriv = (\<lambda>i. 0), qLU = (\<lambda>i. 0),
          efc_AR_rownnz = (\<lambda>i. 0), efc_AR_rowadr = (\<lambda>i. 0), efc_AR_colind = (\<lambda>i. 0),
          efc_AR = (\<lambda>i. 1), efc_aref = (\<lambda>i. 0), efc_b = (\<lambda>i. 0), efc_force = (\<lambda>i. 0),
          calls = []\<rparr>"

definition env0 :: env where
  "env0 = \<lparr>mju_isBad = (\<lambda>x. x < - (10 ^ 10) \<or> x > 10 ^ 10),
            mj_isSparse = (\<lambda>m. False),
            mjMINVAL = 1 / 10 ^ 15, mjNGAIN = 10, mjNBIAS = 10, mjNDYN = 10,
            mj_resetData = (\<lambda>m d. d\<lparr>time := 0, qpos := (\<lambda>i. 0), qvel := (\<lambda>i. 0),
                                   act := (\<lambda>i. 0), ctrl := (\<lambda>i. 0),
                                   warning := (\<lambda>w. \<lparr>lastinfo = 0, number = 0\<rparr>)\<rparr>),
            mj_kinematics = (\<lambda>m d. d), mj_comPos = (\<lambda>m d. d), mj_camlight = (\<lambda>m d. d),
            mj_tendon = (\<lambda>m d. d), mj_transmission = (\<lambda>m d. d), mj_crb = (\<lambda>m d. d),
            mj_factorM = (\<lambda>m d. d\<lparr>qLD := qM d, qLDiagInv := (\<lambda>i. 1 / qM d i),
                                  qLDiagSqrtInv := (\<lambda>i. 1 / qM d i)\<rparr>),
            mj_collision = (\<lambda>m d. d), mj_makeConstraint = (\<lambda>m d. d),
            mj_projectConstraint = (\<lambda>m d. d), mj_comVel = (\<lambda>m d. d),
            mj_passive = (\<lambda>m d. d), mj_referenceConstraint = (\<lambda>m d. d),
            mj_sensorPos = (\<lambda>m d. d), mj_sensorVel = (\<lambda>m d. d), mj_sensorAcc = (\<lambda>m d. d),
            mj_energyPos = (\<lambda>m d. d), mj_energyVel = (\<lambda>m d. d),
            mj_compareFwdInv = (\<lambda>m d. d), mjd_smooth_vel = (\<lambda>m d. d),
            mj_solPGS = (\<lambda>m d n. d\<lparr>solver_iter := n\<rparr>),
            mj_solCG = (\<lambda>m d n. d\<lparr>solver_iter := n\<rparr>),
            mj_solNewton = (\<lambda>m d n. d\<lparr>solver_iter := n\<rparr>),
            mj_solNoSlip = (\<lambda>m d n. d),
            mj_constraintUpdate =
              (\<lambda>m d jar flg. (d\<lparr>efc_force := jar, qfrc_constraint := jar\<rparr>, jar 0 * jar 0)),
            mjcb_control = None, mjcb_act_gain = None, mjcb_act_bias = None,
            mjcb_act_dyn = None,
            mj_rne = (\<lambda>m d flg i. 0),
            mj_solveM = (\<lambda>m d y n. y),
            mj_mulJacVec = (\<lambda>m d vec. vec),
            mj_mulM = (\<lambda>m d vec. vec),
            mj_xfrcAccumulate = (\<lambda>m d qfrc i. qfrc i + 1),
            mj_integratePos = (\<lambda>m qp qv h i. qp i + h * qv i),
            mj_makeMSparse = (\<lambda>m d. ((\<lambda>i. 1), (\<lambda>i. i), (\<lambda>i. i))),
            mj_setMSparse = (\<lambda>m d rownnz rowadr colind. qM d),
            mju_factorLUSparse = (\<lambda>LU n rownnz rowadr colind. LU),
            mju_solveLUSparse = (\<lambda>LU b n rownnz rowadr colind. b),
            mju_mulMatVecSparse = (\<lambda>mat vec n rownnz rowadr colind i. 0),
            mju_muscleGain = (\<lambda>len vel lengthrange acc0 prm. 1),
            mju_muscleBias = (\<lambda>len lengthrange acc0 prm. 0),
            mju_muscleDynamics = (\<lambda>ctrl act prm. 0)\<rparr>"

section \<open>Properties\<close>

subsection \<open>Loops and vectors\<close>

lemma for_loop_step: "i < n \<Longrightarrow> for_loop i n body s = for_loop (i + 1) n body (body i s)"
  by (subst for_loop.simps) simp

lemma for_loop_done: "\<not> i < n \<Longrightarrow> for_loop i n body s = s"
  by (subst for_loop.simps) simp

lemma for_loop_invariant:
  "(\<And>i s. P s \<Longrightarrow> P (body i s)) \<Longrightarrow> P s \<Longrightarrow> P (for_loop i n body s)"
proof (induction i n body s rule: for_loop.induct)
  case (1 i n body s)
  show ?case
  proof (cases "i < n")
    case True
    have "P (body i s)" using 1(3) by (rule 1(2))
    from 1(1)[OF True 1(2) this] have "P (for_loop (i + 1) n body (body i s))" .
    then show ?thesis by (simp only: for_loop_step[OF True])
  next
    case False
    then show ?thesis using 1(3) by (simp add: for_loop_done)
  qed
qed

lemma scan_loop_step: "i < n \<Longrightarrow> scan_loop p a i n = (if p (a i) then i else scan_loop p a (i + 1) n)"
  by (subst scan_loop.simps) simp

lemma scan_loop_done: "\<not> i < n \<Longrightarrow> scan_loop p a i n = i"
  by (subst scan_loop.simps) simp

lemma scan_loop_ge: "i \<le> scan_loop p a i n"
proof (induction p a i n rule: scan_loop.induct)
  case (1 p a i n)
  show ?case
  proof (cases "i < n")
    case lt: True
    show ?thesis
    proof (cases "p (a i)")
      case True
      with lt have "scan_loop p a i n = i" by (subst scan_loop.simps) simp
      then show ?thesis by simp
    next
      case False
      with lt have eq: "scan_loop p a i n = scan_loop p a (i + 1) n"
        by (subst scan_loop.simps) simp
      from 1[OF lt False] show ?thesis by (simp only: eq)
    qed
  next
    case False
    then show ?thesis by (simp add: scan_loop_done)
  qed
qed

lemma scan_loop_found:
  "scan_loop p a i n < n \<Longrightarrow>
     p (a (scan_loop p a i n)) \<and> (\<forall>j. i \<le> j \<and> j < scan_loop p a i n \<longrightarrow> \<not> p (a j))"
proof (induction p a i n rule: scan_loop.induct)
  case (1 p a i n)
  show ?case
  proof (cases "i < n")
    case True
    show ?thesis
    proof (cases "p (a i)")
      case True
      with \<open>i < n\<close> have "scan_loop p a i n = i" by (subst scan_loop.simps) simp
      with True show ?thesis by auto
    next
      case False
      with \<open>i < n\<close> have eq: "scan_loop p a i n = scan_loop p a (i + 1) n"
        by (simp add: scan_loop_step)
      from 1(2) have "scan_loop p a (i + 1) n < n" by (simp only: eq)
      from 1(1)[OF \<open>i < n\<close> False this]
      have IH: "p (a (scan_loop p a (i + 1) n)) \<and>
          (\<forall>j. i + 1 \<le> j \<and> j < scan_loop p a (i + 1) n \<longrightarrow> \<not> p (a j))" .
      have "\<not> p (a j)" if "i \<le> j" "j < scan_loop p a (i + 1) n" for j
      proof (cases "j = i")
        case True
        then show ?thesis using False by simp
      next
        case False
        with that have "i + 1 \<le> j" by simp
        with IH that show ?thesis by blast
      qed
      with IH show ?thesis unfolding eq by blast
    qed
  next
    case False
    then show ?thesis using 1 by (simp add: scan_loop_done)
  qed
qed

lemma scan_loop_none:
  "(\<forall>j. i \<le> j \<and> j < n \<longrightarrow> \<not> p (a j)) \<Longrightarrow> scan_loop p a i n < n \<Longrightarrow> False"
proof -
  assume h: "\<forall>j. i \<le> j \<and> j < n \<longrightarrow> \<not> p (a j)" and lt: "scan_loop p a i n < n"
  from scan_loop_found[OF lt] have "p (a (scan_loop p a i n))" by blast
  moreover have "i \<le> scan_loop p a i n" by (rule scan_loop_ge)
  ultimately show False using h lt by blast
qed

lemma scan_loop_some:
  "i \<le> k \<Longrightarrow> k < n \<Longrightarrow> p (a k) \<Longrightarrow> scan_loop p a i n \<le> k"
proof (induction p a i n rule: scan_loop.induct)
  case (1 p a i n)
  then have "i < n" by simp
  show ?case
  proof (cases "p (a i)")
    case True
    with \<open>i < n\<close> have "scan_loop p a i n = i" by (subst scan_loop.simps) simp
    with 1(2) show ?thesis by simp
  next
    case False
    with \<open>i < n\<close> have eq: "scan_loop p a i n = scan_loop p a (i + 1) n"
      by (subst scan_loop.simps) simp
    from False 1(4) have "i \<noteq> k" by auto
    with 1(2) have "i + 1 \<le> k" by simp
    then have "scan_loop p a (i + 1) n \<le> k"
      using 1(1)[OF \<open>i < n\<close> False] 1(3) 1(4) by blast
    then show ?thesis by (simp only: eq)
  qed
qed

subsection \<open>Unfolding sets\<close>

lemmas blas_defs = mju_zero_def mju_copy_def mju_add_def mju_sub_def mju_addTo_def mju_subFrom_def
  mju_addToScl_def ptr_add_def at_offset_def scratch_def

lemmas enum_defs = mjSTAGE_NONE_def mjSTAGE_POS_def mjSTAGE_VEL_def mjSTAGE_ACC_def
  mjINT_EULER_def mjINT_RK4_def mjINT_IMPLICIT_def mjSOL_PGS_def mjSOL_CG_def mjSOL_NEWTON_def
  mjGAIN_FIXED_def mjGAIN_MUSCLE_def mjBIAS_NONE_def mjBIAS_AFFINE_def mjBIAS_MUSCLE_def
  mjDYN_NONE_def mjDYN_INTEGRATOR_def mjDYN_FILTER_def mjDYN_MUSCLE_def

subsection \<open>The constraint stage without constraints\<close>

lemma fwdConstraint_nefc0:
  "nefc d = 0 \<Longrightarrow> mj_fwdConstraint env m d =
     Inr (d\<lparr>qacc := mju_copy (qacc d) (qacc_smooth d) (nv m),
            qacc_warmstart := mju_copy (qacc_warmstart d) (qacc_smooth d) (nv m),
            qfrc_constraint := mju_zero (qfrc_constraint d) (nv m),
            solver_iter := 0,
            calls := calls d @ [''mj_fwdConstraint'']\<rparr>)"
  by (simp add: mj_fwdConstraint_def enter_def Let_def)

text \<open>
  Claim C2. When \<^verbatim>\<open>mj_fwdConstraint\<close> is called with \<open>nefc = 0\<close> it returns normally; the
  \<open>nv\<close> entries of \<^verbatim>\<open>qacc\<close> and of \<^verbatim>\<open>qacc_warmstart\<close> are those of \<^verbatim>\<open>qacc_smooth\<close>, the \<open>nv\<close>
  entries of \<^verbatim>\<open>qfrc_constraint\<close> are zero and \<^verbatim>\<open>solver_iter\<close> is 0. No routine is entered
  but \<^verbatim>\<open>mj_fwdConstraint\<close> itself (neither \<^verbatim>\<open>warmstart\<close> nor a solver), and nothing else of
  the data changes.
\<close>

theorem C2_fwdConstraint_without_constraints:
  assumes "nefc d = 0"
  shows "\<exists>d'. mj_fwdConstraint env m d = Inr d' \<and>
           (\<forall>i. 0 \<le> i \<and> i < nv m \<longrightarrow>
              qacc d' i = qacc_smooth d i \<and> qacc_warmstart d' i = qacc_smooth d i \<and>
              qfrc_constraint d' i = 0) \<and>
           solver_iter d' = 0 \<and>
           new_calls d d' = [''mj_fwdConstraint''] \<and>
           d' = d\<lparr>qacc := qacc d', qacc_warmstart := qacc_warmstart d',
                  qfrc_constraint := qfrc_constraint d', solver_iter := 0, calls := calls d'\<rparr>"
  using assms
  by (simp add: fwdConstraint_nefc0 mju_copy_def mju_zero_def new_calls_def)

theorem C2_witness:
  "nefc (d0\<lparr>qacc_smooth := (\<lambda>i. 5), qfrc_constraint := (\<lambda>i. 7)\<rparr>) = 0 \<and>
   (\<exists>d'. mj_fwdConstraint env0 m0 (d0\<lparr>qacc_smooth := (\<lambda>i. 5), qfrc_constraint := (\<lambda>i. 7)\<rparr>) = Inr d' \<and>
      qacc d' 0 = 5 \<and> qacc_warmstart d' 0 = 5 \<and> qfrc_constraint d' 0 = 0 \<and> solver_iter d' = 0 \<and>
      new_calls (d0\<lparr>qacc_smooth := (\<lambda>i. 5), qfrc_constraint := (\<lambda>i. 7)\<rparr>) d' = [''mj_fwdConstraint''])"
proof -
  let ?d = "d0\<lparr>qacc_smooth := (\<lambda>i. 5), qfrc_constraint := (\<lambda>i. 7)\<rparr>"
  have n: "nefc ?d = 0" by (simp add: d0_def)
  from C2_fwdConstraint_without_constraints[OF n, of env0 m0]
  obtain d' where d': "mj_fwdConstraint env0 m0 ?d = Inr d'"
    and p: "\<forall>i. 0 \<le> i \<and> i < nv m0 \<longrightarrow>
              qacc d' i = qacc_smooth ?d i \<and> qacc_warmstart d' i = qacc_smooth ?d i \<and>
              qfrc_constraint d' i = 0"
    and r: "solver_iter d' = 0" "new_calls ?d d' = [''mj_fwdConstraint'']"
    by blast
  have "(0::int) \<le> 0 \<and> 0 < nv m0" by (simp add: m0_def)
  with p have "qacc d' 0 = qacc_smooth ?d 0 \<and> qacc_warmstart d' 0 = qacc_smooth ?d 0 \<and>
              qfrc_constraint d' 0 = 0" by blast
  then have "qacc d' 0 = 5 \<and> qacc_warmstart d' 0 = 5 \<and> qfrc_constraint d' 0 = 0" by simp
  with n d' r show ?thesis by blast
qed

subsection \<open>The acceleration stage\<close>

text \<open>
  Claim C3. After \<^verbatim>\<open>mj_fwdAcceleration\<close>, each of the \<open>nv\<close> entries of \<^verbatim>\<open>qfrc_smooth\<close> is what
  \<^verbatim>\<open>mj_xfrcAccumulate\<close> returns for the sum \<open>qfrc_passive - qfrc_bias + qfrc_applied +
  qfrc_actuator\<close>; when \<^verbatim>\<open>mj_xfrcAccumulate\<close> adds its contribution to the vector it is given,
  the entry is that sum plus the accumulated contribution. Each of the \<open>nv\<close> entries of
  \<^verbatim>\<open>qacc_smooth\<close> is what \<^verbatim>\<open>mj_solveM\<close> returns for the new \<^verbatim>\<open>qfrc_smooth\<close>.
\<close>

theorem C3_fwdAcceleration:
  "(let d' = mj_fwdAcceleration env m d;
        d1 = enter ''mj_fwdAcceleration'' d;
        S = (\<lambda>i. if 0 \<le> i \<and> i < nv m
                 then qfrc_passive d i - qfrc_bias d i + qfrc_applied d i + qfrc_actuator d i
                 else qfrc_smooth d i)
    in (\<forall>i. 0 \<le> i \<and> i < nv m \<longrightarrow>
          qfrc_smooth d' i = mj_xfrcAccumulate env m (d1\<lparr>qfrc_smooth := S\<rparr>) S i) \<and>
       (xfrcAccumulate_adds env \<longrightarrow>
          (\<forall>i. 0 \<le> i \<and> i < nv m \<longrightarrow>
             qfrc_smooth d' i =
               qfrc_passive d i - qfrc_bias d i + qfrc_applied d i + qfrc_actuator d i
                 + xfrc_accumulated env m d1 i)) \<and>
       (\<forall>i. 0 \<le> i \<and> i < nv m \<longrightarrow>
          qacc_smooth d' i =
            mj_solveM env m (d'\<lparr>qacc_smooth := qacc_smooth d\<rparr>) (qfrc_smooth d') 1 i))"
proof -
  define d1 where "d1 = enter ''mj_fwdAcceleration'' d"
  define S :: arr where "S = (\<lambda>i. if 0 \<le> i \<and> i < nv m
                 then qfrc_passive d i - qfrc_bias d i + qfrc_applied d i + qfrc_actuator d i
                 else qfrc_smooth d i)"
  define Q where "Q = mju_copy S (mj_xfrcAccumulate env m (d1\<lparr>qfrc_smooth := S\<rparr>) S) (nv m)"
  define d2 where "d2 = d1\<lparr>qfrc_smooth := Q\<rparr>"
  have sum_eq: "mju_addTo (mju_addTo (mju_sub (qfrc_smooth d1) (qfrc_passive d1) (qfrc_bias d1) (nv m))
                   (qfrc_applied d1) (nv m)) (qfrc_actuator d1) (nv m) = S"
    by (rule ext) (simp add: S_def d1_def enter_def mju_addTo_def mju_sub_def)
  have res: "mj_fwdAcceleration env m d =
              d2\<lparr>qacc_smooth := mju_copy (qacc_smooth d2) (mj_solveM env m d2 (qfrc_smooth d2) 1) (nv m)\<rparr>"
    unfolding mj_fwdAcceleration_def Let_def d1_def[symmetric]
    by (simp add: sum_eq d2_def Q_def)
  have q: "qfrc_smooth (mj_fwdAcceleration env m d) = Q"
    by (simp add: res d2_def)
  have restore: "(mj_fwdAcceleration env m d)\<lparr>qacc_smooth := qacc_smooth d\<rparr> = d2"
    by (simp add: res d2_def d1_def enter_def)
  have a: "\<forall>i. 0 \<le> i \<and> i < nv m \<longrightarrow>
          qfrc_smooth (mj_fwdAcceleration env m d) i = mj_xfrcAccumulate env m (d1\<lparr>qfrc_smooth := S\<rparr>) S i"
    by (simp add: q Q_def mju_copy_def)
  have b: "\<forall>i. 0 \<le> i \<and> i < nv m \<longrightarrow>
             qfrc_smooth (mj_fwdAcceleration env m d) i =
               qfrc_passive d i - qfrc_bias d i + qfrc_applied d i + qfrc_actuator d i
                 + xfrc_accumulated env m d1 i" if adds: "xfrcAccumulate_adds env"
  proof (intro allI impI)
    fix i assume i: "0 \<le> i \<and> i < nv m"
    have "mj_xfrcAccumulate env m (d1\<lparr>qfrc_smooth := S\<rparr>) S i =
            S i + mj_xfrcAccumulate env m (d1\<lparr>qfrc_smooth := S\<rparr>\<lparr>qfrc_smooth := scratch\<rparr>) scratch i"
      using adds unfolding xfrcAccumulate_adds_def by blast
    also have "\<dots> = S i + xfrc_accumulated env m d1 i"
      by (simp add: xfrc_accumulated_def)
    finally show "qfrc_smooth (mj_fwdAcceleration env m d) i =
               qfrc_passive d i - qfrc_bias d i + qfrc_applied d i + qfrc_actuator d i
                 + xfrc_accumulated env m d1 i"
      using a i by (simp add: S_def)
  qed
  have c: "\<forall>i. 0 \<le> i \<and> i < nv m \<longrightarrow>
          qacc_smooth (mj_fwdAcceleration env m d) i =
            mj_solveM env m ((mj_fwdAcceleration env m d)\<lparr>qacc_smooth := qacc_smooth d\<rparr>)
              (qfrc_smooth (mj_fwdAcceleration env m d)) 1 i"
    unfolding restore q by (simp add: res mju_copy_def d2_def)
  show ?thesis
    unfolding Let_def d1_def[symmetric] S_def[symmetric] using a b c by blast
qed

theorem C3_witness:
  "xfrcAccumulate_adds env0 \<and>
   qfrc_smooth (mj_fwdAcceleration env0 m0
      (d0\<lparr>qfrc_passive := (\<lambda>i. 2), qfrc_bias := (\<lambda>i. 3), qfrc_applied := (\<lambda>i. 5),
          qfrc_actuator := (\<lambda>i. 7)\<rparr>)) 0 = 12 \<and>
   qacc_smooth (mj_fwdAcceleration env0 m0
      (d0\<lparr>qfrc_passive := (\<lambda>i. 2), qfrc_bias := (\<lambda>i. 3), qfrc_applied := (\<lambda>i. 5),
          qfrc_actuator := (\<lambda>i. 7)\<rparr>)) 0 = 12"
proof -
  let ?d = "d0\<lparr>qfrc_passive := (\<lambda>i. 2), qfrc_bias := (\<lambda>i. 3), qfrc_applied := (\<lambda>i. 5),
          qfrc_actuator := (\<lambda>i. 7)\<rparr>"
  have adds: "xfrcAccumulate_adds env0"
    by (simp add: xfrcAccumulate_adds_def env0_def scratch_def)
  have r: "(0::int) \<le> 0 \<and> 0 < nv m0" by (simp add: m0_def)
  note C = C3_fwdAcceleration[of env0 m0 ?d, unfolded Let_def]
  from C adds r have "qfrc_smooth (mj_fwdAcceleration env0 m0 ?d) 0 =
      qfrc_passive ?d 0 - qfrc_bias ?d 0 + qfrc_applied ?d 0 + qfrc_actuator ?d 0
        + xfrc_accumulated env0 m0 (enter ''mj_fwdAcceleration'' ?d) 0" by blast
  then have q: "qfrc_smooth (mj_fwdAcceleration env0 m0 ?d) 0 = 12"
    by (simp add: xfrc_accumulated_def env0_def scratch_def)
  from C r have "qacc_smooth (mj_fwdAcceleration env0 m0 ?d) 0 =
            mj_solveM env0 m0 ((mj_fwdAcceleration env0 m0 ?d)\<lparr>qacc_smooth := qacc_smooth ?d\<rparr>)
              (qfrc_smooth (mj_fwdAcceleration env0 m0 ?d)) 1 0" by blast
  then have "qacc_smooth (mj_fwdAcceleration env0 m0 ?d) 0 = 12"
    using q by (simp add: env0_def)
  with adds q show ?thesis by blast
qed

subsection \<open>The scan of the controls\<close>




lemma warning_fwdActuation_force [simp]:
  "warning (fwdActuation_force env m i d) = warning d"
  by (simp add: fwdActuation_force_def Let_def)

lemma warning_fwdActuation_clamp_force [simp]:
  "warning (fwdActuation_clamp_force m i d) = warning d"
  by (simp add: fwdActuation_clamp_force_def Let_def)

lemma warning_fwdActuation_act_dot [simp]:
  "warning (fwdActuation_act_dot env m i d) = warning d"
  by (simp add: fwdActuation_act_dot_def Let_def split: option.split)




subsection \<open>The Euler integrator and the mass matrix\<close>

lemma clamp_act_fields [simp]:
  "qM (clamp_act m i d) = qM d" "qLD (clamp_act m i d) = qLD d"
  "qLDiagInv (clamp_act m i d) = qLDiagInv d" "qLDiagSqrtInv (clamp_act m i d) = qLDiagSqrtInv d"
  "time (clamp_act m i d) = time d" "calls (clamp_act m i d) = calls d"
  "qpos (clamp_act m i d) = qpos d" "qvel (clamp_act m i d) = qvel d"
  by (simp_all add: clamp_act_def Let_def)

lemma clamp_loop_fields [simp]:
  "qM (for_loop i n (clamp_act m) s) = qM s" "qLD (for_loop i n (clamp_act m) s) = qLD s"
  "qLDiagInv (for_loop i n (clamp_act m) s) = qLDiagInv s"
  "qLDiagSqrtInv (for_loop i n (clamp_act m) s) = qLDiagSqrtInv s"
  "time (for_loop i n (clamp_act m) s) = time s" "calls (for_loop i n (clamp_act m) s) = calls s"
  "qpos (for_loop i n (clamp_act m) s) = qpos s" "qvel (for_loop i n (clamp_act m) s) = qvel s"
  by (rule for_loop_invariant[where P="\<lambda>x. qM x = qM s"], simp, simp,
      rule for_loop_invariant[where P="\<lambda>x. qLD x = qLD s"], simp, simp,
      rule for_loop_invariant[where P="\<lambda>x. qLDiagInv x = qLDiagInv s"], simp, simp,
      rule for_loop_invariant[where P="\<lambda>x. qLDiagSqrtInv x = qLDiagSqrtInv s"], simp, simp,
      rule for_loop_invariant[where P="\<lambda>x. time x = time s"], simp, simp,
      rule for_loop_invariant[where P="\<lambda>x. calls x = calls s"], simp, simp,
      rule for_loop_invariant[where P="\<lambda>x. qpos x = qpos s"], simp, simp,
      rule for_loop_invariant[where P="\<lambda>x. qvel x = qvel s"], simp, simp)

lemma scan_loop_lt_iff:
  "scan_loop p a i n < n \<longleftrightarrow> (\<exists>k. i \<le> k \<and> k < n \<and> p (a k))"
proof
  assume lt: "scan_loop p a i n < n"
  from scan_loop_found[OF lt] have "p (a (scan_loop p a i n))" by blast
  with lt scan_loop_ge[of i p a n] show "\<exists>k. i \<le> k \<and> k < n \<and> p (a k)" by blast
next
  assume "\<exists>k. i \<le> k \<and> k < n \<and> p (a k)"
  then obtain k where k: "i \<le> k" "k < n" "p (a k)" by blast
  from scan_loop_some[of i k n p a] k show "scan_loop p a i n < n" by simp
qed

lemma calls_damping_loop [simp]:
  "calls (for_loop i n (\<lambda>i d. d\<lparr>qM := (qM d)(dof_Madr m i := qM d (dof_Madr m i) + h * dof_damping m i)\<rparr>) s)
     = calls s"
  by (rule for_loop_invariant[where P="\<lambda>x. calls x = calls s"]) simp_all

text \<open>
  Claim C7. \<^verbatim>\<open>mj_Euler\<close> leaves the \<open>nM\<close> entries of \<^verbatim>\<open>qM\<close> and \<^verbatim>\<open>qLD\<close> and the \<open>nv\<close> entries
  of \<^verbatim>\<open>qLDiagInv\<close> and \<^verbatim>\<open>qLDiagSqrtInv\<close> as they were on entry, for every model and
  whatever \<^verbatim>\<open>mj_factorM\<close> and \<^verbatim>\<open>mj_solveM\<close> do. The path with damping (some
  \<open>dof_damping[i] > 0\<close>) is the one that calls \<^verbatim>\<open>mj_factorM\<close>; the path without damping calls
  no collaborator.
\<close>

theorem C7_Euler_restores_mass_matrix:
  "(\<forall>i. 0 \<le> i \<and> i < nM m \<longrightarrow>
      qM (mj_Euler env m d) i = qM d i \<and> qLD (mj_Euler env m d) i = qLD d i) \<and>
   (\<forall>i. 0 \<le> i \<and> i < nv m \<longrightarrow>
      qLDiagInv (mj_Euler env m d) i = qLDiagInv d i \<and>
      qLDiagSqrtInv (mj_Euler env m d) i = qLDiagSqrtInv d i) \<and>
   new_calls d (mj_Euler env m d) =
     (if \<exists>i. 0 \<le> i \<and> i < nv m \<and> dof_damping m i > 0
      then [''mj_Euler'', ''mj_factorM''] else [''mj_Euler''])"
proof -
  have "scan_loop (\<lambda>x. x > 0) (dof_damping m) 0 (nv m) < nv m \<longleftrightarrow>
          (\<exists>i. 0 \<le> i \<and> i < nv m \<and> dof_damping m i > 0)"
    by (rule scan_loop_lt_iff)
  then have c: "new_calls d (mj_Euler env m d) =
     (if \<exists>i. 0 \<le> i \<and> i < nv m \<and> dof_damping m i > 0
      then [''mj_Euler'', ''mj_factorM''] else [''mj_Euler''])"
    by (simp add: mj_Euler_def Euler_velocity_def Euler_act_def Let_def enter_def call_def
        new_calls_def not_less[symmetric])
  have "(\<forall>i. 0 \<le> i \<and> i < nM m \<longrightarrow>
      qM (mj_Euler env m d) i = qM d i \<and> qLD (mj_Euler env m d) i = qLD d i) \<and>
   (\<forall>i. 0 \<le> i \<and> i < nv m \<longrightarrow>
      qLDiagInv (mj_Euler env m d) i = qLDiagInv d i \<and>
      qLDiagSqrtInv (mj_Euler env m d) i = qLDiagSqrtInv d i)"
    by (simp add: mj_Euler_def Euler_velocity_def Euler_act_def Let_def enter_def mju_copy_def)
  with c show ?thesis by blast
qed

theorem C7_witness:
  "qM (mj_Euler env0 (m0\<lparr>dof_damping := (\<lambda>i. 2)\<rparr>) d0) 0 = 1 \<and>
   qLD (mj_Euler env0 (m0\<lparr>dof_damping := (\<lambda>i. 2)\<rparr>) d0) 0 = 1 \<and>
   qLDiagInv (mj_Euler env0 (m0\<lparr>dof_damping := (\<lambda>i. 2)\<rparr>) d0) 0 = 1 \<and>
   qLDiagSqrtInv (mj_Euler env0 (m0\<lparr>dof_damping := (\<lambda>i. 2)\<rparr>) d0) 0 = 1 \<and>
   new_calls d0 (mj_Euler env0 (m0\<lparr>dof_damping := (\<lambda>i. 2)\<rparr>) d0) = [''mj_Euler'', ''mj_factorM'']"
proof -
  let ?m = "m0\<lparr>dof_damping := (\<lambda>i. 2)\<rparr>"
  note C = C7_Euler_restores_mass_matrix[of ?m env0 d0]
  have r: "(0::int) \<le> 0 \<and> 0 < nM ?m" "(0::int) \<le> 0 \<and> 0 < nv ?m" by (simp_all add: m0_def)
  have e: "\<exists>i. 0 \<le> i \<and> i < nv ?m \<and> dof_damping ?m i > 0"
    by (rule exI[of _ 0]) (simp add: m0_def)
  from C r(1) have "qM (mj_Euler env0 ?m d0) 0 = qM d0 0 \<and> qLD (mj_Euler env0 ?m d0) 0 = qLD d0 0"
    by blast
  moreover from C r(2) have "qLDiagInv (mj_Euler env0 ?m d0) 0 = qLDiagInv d0 0 \<and>
      qLDiagSqrtInv (mj_Euler env0 ?m d0) 0 = qLDiagSqrtInv d0 0" by blast
  moreover from C e have "new_calls d0 (mj_Euler env0 ?m d0) = [''mj_Euler'', ''mj_factorM'']"
    by presburger
  ultimately show ?thesis by (simp add: d0_def)
qed

subsection \<open>The time and the entered routines, stage by stage\<close>

lemma enter_fields [simp]:
  "calls (enter name d) = calls d @ [name]" "time (enter name d) = time d"
  "qpos (enter name d) = qpos d" "qvel (enter name d) = qvel d" "qacc (enter name d) = qacc d"
  "nefc (enter name d) = nefc d"
  by (simp_all add: enter_def)

lemma call_fields [simp]:
  "calls (call name f d) = calls d @ [name]" "time (call name f d) = time (f d)"
  by (simp_all add: call_def)

lemma keeps_timeD:
  assumes "keeps_time env"
  shows "time (mj_kinematics env m d) = time d" "time (mj_comPos env m d) = time d"
    "time (mj_camlight env m d) = time d" "time (mj_tendon env m d) = time d"
    "time (mj_transmission env m d) = time d" "time (mj_crb env m d) = time d"
    "time (mj_factorM env m d) = time d" "time (mj_collision env m d) = time d"
    "time (mj_makeConstraint env m d) = time d" "time (mj_projectConstraint env m d) = time d"
    "time (mj_comVel env m d) = time d" "time (mj_passive env m d) = time d"
    "time (mj_referenceConstraint env m d) = time d" "time (mj_sensorPos env m d) = time d"
    "time (mj_sensorVel env m d) = time d" "time (mj_sensorAcc env m d) = time d"
    "time (mj_energyPos env m d) = time d" "time (mj_energyVel env m d) = time d"
    "time (mj_compareFwdInv env m d) = time d" "time (mjd_smooth_vel env m d) = time d"
    "time (mj_solPGS env m d n) = time d" "time (mj_solCG env m d n) = time d"
    "time (mj_solNewton env m d n) = time d" "time (mj_solNoSlip env m d n) = time d"
    "time (fst (mj_constraintUpdate env m d jar flg)) = time d"
    "mjcb_control env = Some cb \<Longrightarrow> time (cb m d) = time d"
  using assms by (simp_all add: keeps_time_def)

lemma fwdPosition_calls:
  "calls (mj_fwdPosition env m d) = calls d @
     [''mj_fwdPosition'', ''mj_kinematics'', ''mj_comPos'', ''mj_camlight'', ''mj_tendon'',
      ''mj_transmission'', ''mj_crb'', ''mj_factorM'', ''mj_collision'', ''mj_makeConstraint'',
      ''mj_projectConstraint'']"
  by (simp add: mj_fwdPosition_def Let_def)

lemma fwdPosition_time: "keeps_time env \<Longrightarrow> time (mj_fwdPosition env m d) = time d"
  by (simp add: mj_fwdPosition_def Let_def keeps_timeD)

lemma fwdVelocity_calls:
  "calls (mj_fwdVelocity env m d) = calls d @
     [''mj_fwdVelocity'', ''mj_comVel'', ''mj_passive'', ''mj_referenceConstraint'']"
  by (simp add: mj_fwdVelocity_def Let_def)

lemma fwdVelocity_time: "keeps_time env \<Longrightarrow> time (mj_fwdVelocity env m d) = time d"
  by (simp add: mj_fwdVelocity_def Let_def keeps_timeD)

lemma check_ctrl_fields [simp]:
  "calls (fwdActuation_check_ctrl env m d) = calls d"
  "time (fwdActuation_check_ctrl env m d) = time d"
  by (simp_all add: fwdActuation_check_ctrl_def Let_def mj_warning_def)

lemma fwdActuation_force_fields [simp]:
  "calls (fwdActuation_force env m i d) = calls d" "time (fwdActuation_force env m i d) = time d"
  by (simp_all add: fwdActuation_force_def Let_def)

lemma fwdActuation_clamp_force_fields [simp]:
  "calls (fwdActuation_clamp_force m i d) = calls d"
  "time (fwdActuation_clamp_force m i d) = time d"
  by (simp_all add: fwdActuation_clamp_force_def Let_def)

lemma fwdActuation_act_dot_fields [simp]:
  "calls (fwdActuation_act_dot env m i d) = calls d"
  "time (fwdActuation_act_dot env m i d) = time d"
  by (simp_all add: fwdActuation_act_dot_def Let_def split: option.split)

lemma fwdActuation_loops_fields [simp]:
  "calls (for_loop i n (fwdActuation_force env m) s) = calls s"
  "time (for_loop i n (fwdActuation_force env m) s) = time s"
  "calls (for_loop i n (fwdActuation_clamp_force m) s) = calls s"
  "time (for_loop i n (fwdActuation_clamp_force m) s) = time s"
  "calls (for_loop i n (fwdActuation_act_dot env m) s) = calls s"
  "time (for_loop i n (fwdActuation_act_dot env m) s) = time s"
  by (rule for_loop_invariant[where P="\<lambda>x. calls x = calls s"], simp, simp,
      rule for_loop_invariant[where P="\<lambda>x. time x = time s"], simp, simp,
      rule for_loop_invariant[where P="\<lambda>x. calls x = calls s"], simp, simp,
      rule for_loop_invariant[where P="\<lambda>x. time x = time s"], simp, simp,
      rule for_loop_invariant[where P="\<lambda>x. calls x = calls s"], simp, simp,
      rule for_loop_invariant[where P="\<lambda>x. time x = time s"], simp, simp)

lemma fwdActuation_calls: "calls (mj_fwdActuation env m d) = calls d @ [''mj_fwdActuation'']"
  by (simp add: mj_fwdActuation_def Let_def)

lemma fwdActuation_time: "time (mj_fwdActuation env m d) = time d"
  by (simp add: mj_fwdActuation_def Let_def)

lemma fwdAcceleration_calls:
  "calls (mj_fwdAcceleration env m d) = calls d @ [''mj_fwdAcceleration'']"
  by (simp add: mj_fwdAcceleration_def Let_def)

lemma fwdAcceleration_time: "time (mj_fwdAcceleration env m d) = time d"
  by (simp add: mj_fwdAcceleration_def Let_def)

lemma constraintUpdate_fields [simp]:
  "calls (fst (constraintUpdate env m d jar flg)) = calls d @ [''mj_constraintUpdate'']"
  "time (fst (constraintUpdate env m d jar flg)) = time (fst (mj_constraintUpdate env m d jar flg))"
  by (simp_all add: constraintUpdate_def split: prod.split)

lemma warmstart_calls:
  "calls (warmstart env m d) = calls d @ ''warmstart'' #
     (if mjDISABLED m mjDSBL_WARMSTART then []
      else if solver (opt m) = mjSOL_PGS then [''mj_constraintUpdate'']
      else [''mj_constraintUpdate'', ''mj_constraintUpdate''])"
  by (simp add: warmstart_def warmstart_update_def Let_def split_beta)

lemma warmstart_time: "keeps_time env \<Longrightarrow> time (warmstart env m d) = time d"
  by (simp add: warmstart_def warmstart_update_def Let_def split_beta keeps_timeD)

lemma fwdConstraint_calls:
  assumes "mj_fwdConstraint env m d = Inr d'"
  shows "\<exists>ys. calls d' = calls d @ ''mj_fwdConstraint'' # ys \<and> set ys \<subseteq> fwdConstraint_routines"
proof (cases "nefc d = 0")
  case True
  with assms show ?thesis by (simp add: fwdConstraint_nefc0) auto
next
  case False
  with assms show ?thesis
    by (auto simp add: mj_fwdConstraint_def Let_def warmstart_calls fwdConstraint_routines_def
        split: if_splits)
qed

lemma fwdConstraint_time:
  assumes "keeps_time env" "mj_fwdConstraint env m d = Inr d'"
  shows "time d' = time d"
proof (cases "nefc d = 0")
  case True
  with assms show ?thesis by (simp add: fwdConstraint_nefc0) auto
next
  case False
  with assms show ?thesis
    by (auto simp add: mj_fwdConstraint_def Let_def warmstart_time keeps_timeD split: if_splits)
qed

lemma fwdConstraint_total:
  assumes "solver (opt m) = mjSOL_PGS \<or> solver (opt m) = mjSOL_CG \<or> solver (opt m) = mjSOL_NEWTON"
  shows "\<exists>d'. mj_fwdConstraint env m d = Inr d'"
  using assms by (auto simp add: mj_fwdConstraint_def Let_def)

lemma forwardSkip_unfold:
  "\<exists>d1. mj_forwardSkip env m d skipstage skipsensor =
          (case mj_fwdConstraint env m d1 of
             Inl e \<Rightarrow> Inl e
           | Inr d \<Rightarrow> Inr (if skipsensor = 0 then call ''mj_sensorAcc'' (mj_sensorAcc env m) d else d)) \<and>
        calls d1 = calls d @ ''mj_forwardSkip'' # forwardSkip_routines env m skipstage skipsensor \<and>
        (keeps_time env \<longrightarrow> time d1 = time d)"
proof -
  define dp where "dp =
     (if skipstage < mjSTAGE_POS then
        (let d = mj_fwdPosition env m (enter ''mj_forwardSkip'' d);
             d = (if skipsensor = 0 then call ''mj_sensorPos'' (mj_sensorPos env m) d else d)
         in if mjENABLED m mjENBL_ENERGY
            then call ''mj_energyPos'' (mj_energyPos env m) d else d)
      else enter ''mj_forwardSkip'' d)"
  define dv where "dv =
     (if skipstage < mjSTAGE_VEL then
        (let d = mj_fwdVelocity env m dp;
             d = (if skipsensor = 0 then call ''mj_sensorVel'' (mj_sensorVel env m) d else d)
         in if mjENABLED m mjENBL_ENERGY
            then call ''mj_energyVel'' (mj_energyVel env m) d else d)
      else dp)"
  define dc where "dc =
     (case mjcb_control env of Some cb \<Rightarrow> call ''mjcb_control'' (cb m) dv | None \<Rightarrow> dv)"
  define d1 where "d1 = mj_fwdAcceleration env m (mj_fwdActuation env m dc)"
  have eq: "mj_forwardSkip env m d skipstage skipsensor =
          (case mj_fwdConstraint env m d1 of
             Inl e \<Rightarrow> Inl e
           | Inr d \<Rightarrow> Inr (if skipsensor = 0 then call ''mj_sensorAcc'' (mj_sensorAcc env m) d else d))"
    unfolding mj_forwardSkip_def d1_def dc_def dv_def dp_def Let_def by (rule refl)
  have cp: "calls dp = calls d @ ''mj_forwardSkip'' #
     (if skipstage < mjSTAGE_POS
      then [''mj_fwdPosition'', ''mj_kinematics'', ''mj_comPos'', ''mj_camlight'', ''mj_tendon'',
            ''mj_transmission'', ''mj_crb'', ''mj_factorM'', ''mj_collision'',
            ''mj_makeConstraint'', ''mj_projectConstraint'']
           @ (if skipsensor = 0 then [''mj_sensorPos''] else [])
           @ (if mjENABLED m mjENBL_ENERGY then [''mj_energyPos''] else [])
      else [])"
    by (simp add: dp_def Let_def fwdPosition_calls)
  have cv: "calls dv = calls dp @
     (if skipstage < mjSTAGE_VEL
      then [''mj_fwdVelocity'', ''mj_comVel'', ''mj_passive'', ''mj_referenceConstraint'']
           @ (if skipsensor = 0 then [''mj_sensorVel''] else [])
           @ (if mjENABLED m mjENBL_ENERGY then [''mj_energyVel''] else [])
      else [])"
    by (simp add: dv_def Let_def fwdVelocity_calls)
  have cc: "calls dc = calls dv @
      (case mjcb_control env of Some cb \<Rightarrow> [''mjcb_control''] | None \<Rightarrow> [])"
    by (simp add: dc_def split: option.split)
  have c1: "calls d1 = calls dc @ [''mj_fwdActuation'', ''mj_fwdAcceleration'']"
    by (simp add: d1_def fwdAcceleration_calls fwdActuation_calls)
  have c: "calls d1 = calls d @ ''mj_forwardSkip'' # forwardSkip_routines env m skipstage skipsensor"
    unfolding c1 cc cv cp forwardSkip_routines_def by simp
  have t: "time d1 = time d" if k: "keeps_time env"
  proof -
    have "time dp = time d" using k by (simp add: dp_def Let_def fwdPosition_time keeps_timeD)
    moreover have "time dv = time dp"
      using k by (simp add: dv_def Let_def fwdVelocity_time keeps_timeD)
    moreover have "time dc = time dv"
      using k by (simp add: dc_def keeps_timeD split: option.split)
    moreover have "time d1 = time dc"
      by (simp add: d1_def fwdAcceleration_time fwdActuation_time)
    ultimately show ?thesis by simp
  qed
  from eq c t show ?thesis by blast
qed

lemma forwardSkip_total:
  assumes "solver (opt m) = mjSOL_PGS \<or> solver (opt m) = mjSOL_CG \<or> solver (opt m) = mjSOL_NEWTON"
  shows "\<exists>d'. mj_forwardSkip env m d skipstage skipsensor = Inr d'"
proof -
  from forwardSkip_unfold[of env m d skipstage skipsensor]
  obtain d1 where d1: "mj_forwardSkip env m d skipstage skipsensor =
      (case mj_fwdConstraint env m d1 of Inl e \<Rightarrow> Inl e
       | Inr d \<Rightarrow> Inr (if skipsensor = 0 then call ''mj_sensorAcc'' (mj_sensorAcc env m) d else d))"
    by blast
  from fwdConstraint_total[OF assms, of env d1] obtain d2 where "mj_fwdConstraint env m d1 = Inr d2"
    by blast
  with d1 show ?thesis by simp
qed

lemma forwardSkip_time:
  assumes "keeps_time env" "mj_forwardSkip env m d skipstage skipsensor = Inr d'"
  shows "time d' = time d"
proof -
  from forwardSkip_unfold[of env m d skipstage skipsensor] assms(1)
  obtain d1 where eq: "mj_forwardSkip env m d skipstage skipsensor =
      (case mj_fwdConstraint env m d1 of Inl e \<Rightarrow> Inl e
       | Inr d \<Rightarrow> Inr (if skipsensor = 0 then call ''mj_sensorAcc'' (mj_sensorAcc env m) d else d))"
    and t1: "time d1 = time d"
    by blast
  with assms(2) obtain d2 where d2: "mj_fwdConstraint env m d1 = Inr d2"
      "d' = (if skipsensor = 0 then call ''mj_sensorAcc'' (mj_sensorAcc env m) d2 else d2)"
    by (auto split: sum.splits)
  from fwdConstraint_time[OF assms(1) d2(1)] t1 d2(2) assms(1) show ?thesis
    by (simp add: keeps_timeD)
qed

lemma forwardSkip_calls:
  assumes "mj_forwardSkip env m d skipstage skipsensor = Inr d'"
  shows "\<exists>ys. new_calls d d' =
           ''mj_forwardSkip'' # forwardSkip_routines env m skipstage skipsensor
             @ ''mj_fwdConstraint'' # ys \<and>
           set ys \<subseteq> insert ''mj_sensorAcc'' fwdConstraint_routines"
proof -
  from forwardSkip_unfold[of env m d skipstage skipsensor]
  obtain d1 where eq: "mj_forwardSkip env m d skipstage skipsensor =
      (case mj_fwdConstraint env m d1 of Inl e \<Rightarrow> Inl e
       | Inr d \<Rightarrow> Inr (if skipsensor = 0 then call ''mj_sensorAcc'' (mj_sensorAcc env m) d else d))"
    and c1: "calls d1 = calls d @ ''mj_forwardSkip'' # forwardSkip_routines env m skipstage skipsensor"
    by blast
  with assms obtain d2 where d2: "mj_fwdConstraint env m d1 = Inr d2"
      "d' = (if skipsensor = 0 then call ''mj_sensorAcc'' (mj_sensorAcc env m) d2 else d2)"
    by (auto split: sum.splits)
  from fwdConstraint_calls[OF d2(1)] obtain zs where zs: "calls d2 = calls d1 @ ''mj_fwdConstraint'' # zs"
      "set zs \<subseteq> fwdConstraint_routines" by blast
  let ?ys = "zs @ (if skipsensor = 0 then [''mj_sensorAcc''] else [])"
  have "calls d' = calls d1 @ ''mj_fwdConstraint'' # ?ys"
    using d2(2) zs(1) by simp
  then have "new_calls d d' =
           ''mj_forwardSkip'' # forwardSkip_routines env m skipstage skipsensor
             @ ''mj_fwdConstraint'' # ?ys"
    by (simp add: new_calls_def c1)
  moreover have "set ?ys \<subseteq> insert ''mj_sensorAcc'' fwdConstraint_routines"
    using zs(2) by auto
  ultimately show ?thesis by blast
qed

subsection \<open>Which stages \<^verbatim>\<open>mj_forwardSkip\<close> runs\<close>

text \<open>
  Claim C4, as amended. When \<^verbatim>\<open>mj_forwardSkip\<close> returns, the position stage
  (\<^verbatim>\<open>mj_fwdPosition\<close>) has run if and only if \<open>skipstage < mjSTAGE_POS\<close>, and the velocity stage
  (\<^verbatim>\<open>mj_fwdVelocity\<close>) if and only if \<open>skipstage < mjSTAGE_VEL\<close>. The actuation, acceleration
  and constraint stages have run whatever \<open>skipstage\<close> is: the source does not compare
  \<open>skipstage\<close> with \<^verbatim>\<open>mjSTAGE_ACC\<close>.
\<close>

theorem C4_forwardSkip_stages:
  assumes "mj_forwardSkip env m d skipstage skipsensor = Inr d'"
  shows "(''mj_fwdPosition'' \<in> set (new_calls d d') \<longleftrightarrow> skipstage < mjSTAGE_POS) \<and>
         (''mj_fwdVelocity'' \<in> set (new_calls d d') \<longleftrightarrow> skipstage < mjSTAGE_VEL) \<and>
         ''mj_fwdActuation'' \<in> set (new_calls d d') \<and>
         ''mj_fwdAcceleration'' \<in> set (new_calls d d') \<and>
         ''mj_fwdConstraint'' \<in> set (new_calls d d')"
proof -
  from forwardSkip_calls[OF assms] obtain ys where
    n: "new_calls d d' = ''mj_forwardSkip'' # forwardSkip_routines env m skipstage skipsensor
             @ ''mj_fwdConstraint'' # ys"
    and ys: "set ys \<subseteq> insert ''mj_sensorAcc'' fwdConstraint_routines" by blast
  have no: "''mj_fwdPosition'' \<notin> set ys" "''mj_fwdVelocity'' \<notin> set ys"
    using ys by (auto simp add: fwdConstraint_routines_def)
  have p: "''mj_fwdPosition'' \<in> set (forwardSkip_routines env m skipstage skipsensor)
             \<longleftrightarrow> skipstage < mjSTAGE_POS"
    by (simp add: forwardSkip_routines_def split: option.split)
  have v: "''mj_fwdVelocity'' \<in> set (forwardSkip_routines env m skipstage skipsensor)
             \<longleftrightarrow> skipstage < mjSTAGE_VEL"
    by (simp add: forwardSkip_routines_def split: option.split)
  have a: "''mj_fwdActuation'' \<in> set (forwardSkip_routines env m skipstage skipsensor)"
    "''mj_fwdAcceleration'' \<in> set (forwardSkip_routines env m skipstage skipsensor)"
    by (simp_all add: forwardSkip_routines_def)
  show ?thesis unfolding n using no p v a by simp
qed

theorem C4_witness:
  "\<exists>d'. mj_forwardSkip env0 m0 d0 mjSTAGE_POS 0 = Inr d' \<and>
      ''mj_fwdPosition'' \<notin> set (new_calls d0 d') \<and>
      ''mj_fwdVelocity'' \<in> set (new_calls d0 d') \<and>
      ''mj_fwdActuation'' \<in> set (new_calls d0 d') \<and>
      ''mj_fwdAcceleration'' \<in> set (new_calls d0 d') \<and>
      ''mj_fwdConstraint'' \<in> set (new_calls d0 d')"
proof -
  have "solver (opt m0) = mjSOL_PGS \<or> solver (opt m0) = mjSOL_CG \<or> solver (opt m0) = mjSOL_NEWTON"
    by (simp add: m0_def opt0_def)
  from forwardSkip_total[OF this, of env0 d0 mjSTAGE_POS 0]
  obtain d' where d': "mj_forwardSkip env0 m0 d0 mjSTAGE_POS 0 = Inr d'" by blast
  from C4_forwardSkip_stages[OF d'] d' show ?thesis
    by (simp add: mjSTAGE_POS_def mjSTAGE_VEL_def)
qed

text \<open>
  The claim as it stands fails for \<open>skipstage = mjSTAGE_ACC\<close>: the acceleration-dependent
  stages run all the same.
\<close>

theorem C4_counterexample:
  "\<not> mjSTAGE_ACC < mjSTAGE_ACC \<and>
   map_sum id (new_calls d0) (mj_forwardSkip env0 m0 d0 mjSTAGE_ACC 1) =
     Inr [''mj_forwardSkip'', ''mj_fwdActuation'', ''mj_fwdAcceleration'', ''mj_fwdConstraint'']"
  by (simp add: mj_forwardSkip_def mj_fwdActuation_def mj_fwdAcceleration_def fwdConstraint_nefc0
      fwdActuation_check_ctrl_def fwdActuation_force_def fwdActuation_clamp_force_def
      fwdActuation_act_dot_def Let_def enter_def new_calls_def
      env0_def m0_def d0_def opt0_def enum_defs mjDISABLED_def
      scan_loop_step scan_loop_done for_loop_step for_loop_done)

subsection \<open>The energy routines in \<^verbatim>\<open>mj_step1\<close> and in \<^verbatim>\<open>mj_forwardSkip\<close>\<close>

lemma mj_warning_fields [simp]:
  "calls (mj_warning d w i) = calls d" "time (mj_warning d w i) = time d"
  by (simp_all add: mj_warning_def)






subsection \<open>The warmstart\<close>

lemma for_loop_sum:
  fixes f :: "int \<Rightarrow> real"
  shows "for_loop i n (\<lambda>k c. c + f k) a = a + sum f {i..<n}"
proof (induction i n "\<lambda>(k::int) (c::real). c + f k" a rule: for_loop.induct)
  case (1 i n a)
  show ?case
  proof (cases "i < n")
    case True
    have s: "{i..<n} = insert i {i + 1..<n}" using True by auto
    have "sum f {i..<n} = f i + sum f {i + 1..<n}"
      unfolding s by (rule sum.insert) auto
    with 1[OF True] True show ?thesis by (simp add: for_loop_step)
  next
    case False
    then show ?thesis by (simp add: for_loop_done)
  qed
qed


lemma constraintUpdate_acc:
  assumes "constraintUpdate_keeps_acc env m" "0 \<le> i" "i < nv m"
  shows "qacc (fst (constraintUpdate env m d jar flg)) i = qacc d i"
    "qacc_smooth (fst (constraintUpdate env m d jar flg)) i = qacc_smooth d i"
    "qacc_warmstart (fst (constraintUpdate env m d jar flg)) i = qacc_warmstart d i"
  using assms
  by (simp_all add: constraintUpdate_def split_beta constraintUpdate_keeps_acc_def)





text \<open>
  Claim C5. With a solver other than PGS (CG or Newton) and the warmstart enabled, and when
  \<^verbatim>\<open>mj_constraintUpdate\<close> writes none of the acceleration vectors, \<^verbatim>\<open>warmstart\<close> leaves each of
  the \<open>nv\<close> entries of \<^verbatim>\<open>qacc\<close> equal to that of \<^verbatim>\<open>qacc_smooth\<close> when \<^verbatim>\<open>cost_warmstart\<close> is
  greater than \<^verbatim>\<open>cost_smooth\<close>, and to that of \<^verbatim>\<open>qacc_warmstart\<close> otherwise. Here
  \<^verbatim>\<open>cost_warmstart\<close> is the cost that \<^verbatim>\<open>mj_constraintUpdate\<close> returns for
  \<open>J qacc_warmstart - efc_aref\<close>, plus the Gauss term
  \<open>1/2 (M qacc_warmstart - qfrc_smooth)\<^sup>T (qacc_warmstart - qacc_smooth)\<close>, and
  \<^verbatim>\<open>cost_smooth\<close> is the cost that \<^verbatim>\<open>mj_constraintUpdate\<close> returns for \<^verbatim>\<open>efc_b\<close>.
\<close>

theorem C5_warmstart_CG_Newton:
  assumes "\<not> mjDISABLED m mjDSBL_WARMSTART" "solver (opt m) \<noteq> mjSOL_PGS"
    "constraintUpdate_keeps_acc env m"
  shows "(let da = (enter ''warmstart'' d)\<lparr>qacc := mju_copy (qacc d) (qacc_warmstart d) (nv m)\<rparr>;
              jar = (\<lambda>i. if 0 \<le> i \<and> i < nefc d
                         then mj_mulJacVec env m da (qacc_warmstart d) i - efc_aref d i else 0);
              d1 = fst (constraintUpdate env m da jar 0);
              cost_warmstart = snd (mj_constraintUpdate env m da jar 0) +
                (\<Sum>i = 0..<nv m. 1 / 2 * (mj_mulM env m d1 (qacc_warmstart d1) i - qfrc_smooth d1 i)
                                      * (qacc_warmstart d1 i - qacc_smooth d1 i));
              cost_smooth = snd (mj_constraintUpdate env m d1 (efc_b d1) 0)
          in \<forall>i. 0 \<le> i \<and> i < nv m \<longrightarrow>
               qacc (warmstart env m d) i =
                 (if cost_warmstart > cost_smooth then qacc_smooth d i else qacc_warmstart d i) \<and>
               qacc_smooth (warmstart env m d) i = qacc_smooth d i \<and>
               qacc_warmstart (warmstart env m d) i = qacc_warmstart d i)"
proof -
  define da where "da = (enter ''warmstart'' d)\<lparr>qacc := mju_copy (qacc d) (qacc_warmstart d) (nv m)\<rparr>"
  define jar :: arr where "jar = (\<lambda>i. if 0 \<le> i \<and> i < nefc d
                         then mj_mulJacVec env m da (qacc_warmstart d) i - efc_aref d i else 0)"
  define d1 where "d1 = fst (constraintUpdate env m da jar 0)"
  define cw where "cw = snd (mj_constraintUpdate env m da jar 0) +
                (\<Sum>i = 0..<nv m. 1 / 2 * (mj_mulM env m d1 (qacc_warmstart d1) i - qfrc_smooth d1 i)
                                      * (qacc_warmstart d1 i - qacc_smooth d1 i))"
  define cs where "cs = snd (mj_constraintUpdate env m d1 (efc_b d1) 0)"
  define d2 where "d2 = fst (constraintUpdate env m d1 (efc_b d1) 0)"
  have jar_eq: "mju_subFrom (mju_copy scratch (mj_mulJacVec env m da (qacc_warmstart da)) (nefc d))
                  (efc_aref da) (nefc d) = jar"
    by (rule ext) (simp add: jar_def da_def enter_def blas_defs)
  have upd: "warmstart_update env m (enter ''warmstart'' d) = constraintUpdate env m da jar 0"
    unfolding warmstart_update_def Let_def
    using jar_eq by (simp add: da_def enter_def)
  have snd_cu: "snd (constraintUpdate env m x j flg) = snd (mj_constraintUpdate env m x j flg)"
    for x j flg by (simp add: constraintUpdate_def split_beta)
  have gauss: "warmstart_Gauss env m d1 (snd (mj_constraintUpdate env m da jar 0)) = cw"
    unfolding warmstart_Gauss_def Let_def cw_def for_loop_sum
    by (intro arg_cong2[where f="(+)"] refl sum.cong) (simp_all add: mju_copy_def)
  have w: "warmstart env m d =
             (if cw > cs then d2\<lparr>qacc := mju_copy (qacc d2) (qacc_smooth d2) (nv m)\<rparr> else d2)"
    using assms(1,2)
    by (simp add: warmstart_def Let_def split_beta upd d1_def[symmetric] gauss snd_cu
        cs_def d2_def)
  have a1: "qacc d1 i = qacc_warmstart d i \<and> qacc_smooth d1 i = qacc_smooth d i \<and>
            qacc_warmstart d1 i = qacc_warmstart d i" if "0 \<le> i \<and> i < nv m" for i
    using that constraintUpdate_acc[OF assms(3), of i da jar 0]
    by (simp add: d1_def da_def mju_copy_def enter_def)
  have a2: "qacc d2 i = qacc_warmstart d i \<and> qacc_smooth d2 i = qacc_smooth d i \<and>
            qacc_warmstart d2 i = qacc_warmstart d i" if "0 \<le> i \<and> i < nv m" for i
    using that constraintUpdate_acc[OF assms(3), of i d1 "efc_b d1" 0] a1[of i]
    by (simp add: d2_def)
  have "\<forall>i. 0 \<le> i \<and> i < nv m \<longrightarrow>
               qacc (warmstart env m d) i =
                 (if cw > cs then qacc_smooth d i else qacc_warmstart d i) \<and>
               qacc_smooth (warmstart env m d) i = qacc_smooth d i \<and>
               qacc_warmstart (warmstart env m d) i = qacc_warmstart d i"
    using a2 by (simp add: w mju_copy_def)
  then show ?thesis
    unfolding Let_def da_def[symmetric] jar_def[symmetric] d1_def[symmetric] cw_def[symmetric]
      cs_def[symmetric] .
qed

theorem C5_witness:
  "qacc (warmstart env0 m0
      (d0\<lparr>nefc := 1, qacc_warmstart := (\<lambda>i. 3), qacc_smooth := (\<lambda>i. 5), efc_b := (\<lambda>i. 2)\<rparr>)) 0 = 5 \<and>
   qacc (warmstart env0 m0
      (d0\<lparr>nefc := 1, qacc_warmstart := (\<lambda>i. 3), qacc_smooth := (\<lambda>i. 5), efc_b := (\<lambda>i. 10)\<rparr>)) 0 = 3"
proof -
  let ?d = "d0\<lparr>nefc := 1, qacc_warmstart := (\<lambda>i. 3), qacc_smooth := (\<lambda>i. 5), efc_b := (\<lambda>i. 2)\<rparr>"
  let ?e = "d0\<lparr>nefc := 1, qacc_warmstart := (\<lambda>i. 3), qacc_smooth := (\<lambda>i. 5), efc_b := (\<lambda>i. 10)\<rparr>"
  have h: "\<not> mjDISABLED m0 mjDSBL_WARMSTART" "solver (opt m0) \<noteq> mjSOL_PGS"
      "constraintUpdate_keeps_acc env0 m0"
    by (simp_all add: mjDISABLED_def m0_def opt0_def mjSOL_PGS_def mjSOL_NEWTON_def
        constraintUpdate_keeps_acc_def env0_def)
  have s: "{0..<1::int} = {0}" by auto
  have r: "0 \<le> (0::int) \<and> 0 < nv m0" by (simp add: m0_def)
  have n: "nv m0 = 1" by (simp add: m0_def)
  from C5_warmstart_CG_Newton[OF h, of ?d, unfolded Let_def, rule_format, OF r]
  have 1: "qacc (warmstart env0 m0 ?d) 0 = 5"
    unfolding n s
    by (simp add: env0_def d0_def constraintUpdate_def enter_def mju_copy_def)
  from C5_warmstart_CG_Newton[OF h, of ?e, unfolded Let_def, rule_format, OF r]
  have 2: "qacc (warmstart env0 m0 ?e) 0 = 3"
    unfolding n s
    by (simp add: env0_def d0_def constraintUpdate_def enter_def mju_copy_def)
  from 1 2 show ?thesis by blast
qed

subsection \<open>The Runge-Kutta integrator\<close>

lemma forwardSkip_not_Inl:
  assumes "solver (opt m) = mjSOL_PGS \<or> solver (opt m) = mjSOL_CG \<or> solver (opt m) = mjSOL_NEWTON"
  shows "mj_forwardSkip env m d skipstage skipsensor \<noteq> Inl e"
  using forwardSkip_total[OF assms, of env d skipstage skipsensor] by auto

lemma RungeKutta_stages_total:
  assumes "solver (opt m) = mjSOL_PGS \<or> solver (opt m) = mjSOL_CG \<or> solver (opt m) = mjSOL_NEWTON"
  shows "\<exists>r. RungeKutta_stages env m N A T i (d, X, F) = Inr r"
proof (induction "nat (N - i)" arbitrary: i d X F)
  case 0
  then have "\<not> i < N" by simp
  then show ?case by (simp add: RungeKutta_stages.simps[of env m N A T i])
next
  case (Suc n)
  then have lt: "i < N" and n: "n = nat (N - (i + 1))" by simp_all
  show ?case
    using lt Suc.hyps(1)[OF n] forwardSkip_not_Inl[OF assms]
    by (simp add: RungeKutta_stages.simps[of env m N A T i] Let_def split: sum.split)
qed

lemma RungeKutta_total:
  assumes "solver (opt m) = mjSOL_PGS \<or> solver (opt m) = mjSOL_CG \<or> solver (opt m) = mjSOL_NEWTON"
  shows "\<exists>d'. mj_RungeKutta env m d 4 = Inr d'"
proof -
  have "\<exists>r. RungeKutta_stages env m 4 A T 1 (x, X, F) = Inr r" for A T x X F
    by (rule RungeKutta_stages_total[OF assms])
  then have "RungeKutta_stages env m 4 A T 1 (x, X, F) \<noteq> Inl e" for A T x X F e
    by (metis Inl_Inr_False)
  then show ?thesis
    by (simp add: mj_RungeKutta_def Let_def split_beta split: sum.split)
qed

lemma RungeKutta_result:
  assumes "mj_RungeKutta env m d N = Inr d'"
  shows "N = 4 \<and> (\<exists>s. d' = (if na m \<noteq> 0 then for_loop 0 (na m) (clamp_act m) s else s) \<and>
           time s = time d + timestep (opt m))"
  using assms
  by (auto simp add: mj_RungeKutta_def Let_def split_beta split: if_splits sum.splits)

lemma RungeKutta_time:
  assumes "mj_RungeKutta env m d N = Inr d'"
  shows "time d' = time d + timestep (opt m)"
  using RungeKutta_result[OF assms] by auto

subsection \<open>The clamp of the activations\<close>










subsection \<open>One step\<close>

lemma checkPos_good:
  assumes "\<forall>i. 0 \<le> i \<and> i < nq m \<longrightarrow> \<not> mju_isBad env (qpos d i)"
  shows "mj_checkPos env m d = enter ''mj_checkPos'' d"
proof -
  have "\<not> scan_loop (mju_isBad env) (qpos d) 0 (nq m) < nq m"
    using scan_loop_none[of 0 "nq m" "mju_isBad env" "qpos d"] assms by blast
  then show ?thesis by (simp add: mj_checkPos_def Let_def)
qed

lemma checkVel_good:
  assumes "\<forall>i. 0 \<le> i \<and> i < nv m \<longrightarrow> \<not> mju_isBad env (qvel d i)"
  shows "mj_checkVel env m d = enter ''mj_checkVel'' d"
proof -
  have "\<not> scan_loop (mju_isBad env) (qvel d) 0 (nv m) < nv m"
    using scan_loop_none[of 0 "nv m" "mju_isBad env" "qvel d"] assms by blast
  then show ?thesis by (simp add: mj_checkVel_def Let_def)
qed

lemma checkAcc_good:
  assumes "\<forall>i. 0 \<le> i \<and> i < nv m \<longrightarrow> \<not> mju_isBad env (qacc d i)"
  shows "mj_checkAcc env m d = Inr (enter ''mj_checkAcc'' d)"
proof -
  have "\<not> scan_loop (mju_isBad env) (qacc d) 0 (nv m) < nv m"
    using scan_loop_none[of 0 "nv m" "mju_isBad env" "qacc d"] assms by blast
  then show ?thesis by (simp add: mj_checkAcc_def Let_def)
qed

lemma forward_time:
  assumes "keeps_time env" "mj_forward env m d = Inr d'"
  shows "time d' = time d"
  using forwardSkip_time[OF assms(1), of m "enter ''mj_forward'' d" mjSTAGE_NONE 0 d'] assms(2)
  by (simp add: mj_forward_def)

lemma forward_total:
  assumes "solver (opt m) = mjSOL_PGS \<or> solver (opt m) = mjSOL_CG \<or> solver (opt m) = mjSOL_NEWTON"
  shows "\<exists>d'. mj_forward env m d = Inr d'"
  using forwardSkip_total[OF assms] by (simp add: mj_forward_def)

lemma time_damping_loop [simp]:
  "time (for_loop i n (\<lambda>i d. d\<lparr>qM := (qM d)(dof_Madr m i := qM d (dof_Madr m i) + h * dof_damping m i)\<rparr>) s)
     = time s"
  by (rule for_loop_invariant[where P="\<lambda>x. time x = time s"]) simp_all

lemma Euler_time:
  assumes "keeps_time env"
  shows "time (mj_Euler env m d) = time d + timestep (opt m)"
  using assms
  by (simp add: mj_Euler_def Euler_velocity_def Euler_act_def Let_def keeps_timeD)

lemma implicit_time:
  assumes "keeps_time env"
  shows "time (mj_implicit env m d) = time d + timestep (opt m)"
  using assms
  by (simp add: mj_implicit_def Let_def split_beta keeps_timeD)

text \<open>
  Claim C1. Let no collaborator write \<^verbatim>\<open>d->time\<close>, let no entry of \<^verbatim>\<open>qpos\<close> and \<^verbatim>\<open>qvel\<close> be bad
  on entry and no entry of the \<^verbatim>\<open>qacc\<close> that \<^verbatim>\<open>mj_forward\<close> computes be bad (so that no check
  resets the data). Then every call of \<^verbatim>\<open>mj_step\<close> that returns leaves \<^verbatim>\<open>time\<close> greater by
  exactly \<^verbatim>\<open>opt.timestep\<close>; and with each of the integrators Euler, RK4 and implicit (and a
  known solver) the call does return.
\<close>

theorem C1_step_advances_time:
  assumes "keeps_time env"
    and "\<forall>i. 0 \<le> i \<and> i < nq m \<longrightarrow> \<not> mju_isBad env (qpos d i)"
    and "\<forall>i. 0 \<le> i \<and> i < nv m \<longrightarrow> \<not> mju_isBad env (qvel d i)"
    and "\<forall>d1. mj_forward env m (mj_checkVel env m (mj_checkPos env m (enter ''mj_step'' d))) = Inr d1
           \<longrightarrow> (\<forall>i. 0 \<le> i \<and> i < nv m \<longrightarrow> \<not> mju_isBad env (qacc d1 i))"
  shows "(\<forall>d'. mj_step env m d = Inr d' \<longrightarrow> time d' = time d + timestep (opt m)) \<and>
         ((integrator (opt m) = mjINT_EULER \<or> integrator (opt m) = mjINT_RK4 \<or>
           integrator (opt m) = mjINT_IMPLICIT) \<and>
          (solver (opt m) = mjSOL_PGS \<or> solver (opt m) = mjSOL_CG \<or> solver (opt m) = mjSOL_NEWTON)
          \<longrightarrow> (\<exists>d'. mj_step env m d = Inr d' \<and> time d' = time d + timestep (opt m)))"
proof -
  define dc where "dc = mj_checkVel env m (mj_checkPos env m (enter ''mj_step'' d))"
  have dc: "dc = enter ''mj_checkVel'' (enter ''mj_checkPos'' (enter ''mj_step'' d))"
    unfolding dc_def using assms(2,3)
    by (simp add: checkPos_good checkVel_good)
  have tc: "time dc = time d" by (simp add: dc)
  define fin where "fin = (\<lambda>d2.
     (let d = (if mjENABLED m mjENBL_FWDINV
               then call ''mj_compareFwdInv'' (mj_compareFwdInv env m) (enter ''mj_checkAcc'' d2)
               else enter ''mj_checkAcc'' d2)
      in if integrator (opt m) = mjINT_EULER then Inr (mj_Euler env m d)
         else if integrator (opt m) = mjINT_RK4 then mj_RungeKutta env m d 4
         else if integrator (opt m) = mjINT_IMPLICIT then Inr (mj_implicit env m d)
         else Inl Invalid_integrator))"
  have step: "mj_step env m d = fin d2" if f: "mj_forward env m dc = Inr d2" for d2
  proof -
    from assms(4) f have "\<forall>i. 0 \<le> i \<and> i < nv m \<longrightarrow> \<not> mju_isBad env (qacc d2 i)"
      unfolding dc_def by blast
    from checkAcc_good[OF this] f show ?thesis
      unfolding mj_step_def Let_def dc_def[symmetric] fin_def by simp
  qed
  have err: "mj_step env m d = Inl e" if f: "mj_forward env m dc = Inl e" for e
    using f unfolding mj_step_def Let_def dc_def[symmetric] by simp
  have fin_time: "time d' = time d + timestep (opt m)"
    if f: "mj_forward env m dc = Inr d2" and r: "fin d2 = Inr d'" for d2 d'
  proof -
    define d3 where "d3 = (if mjENABLED m mjENBL_FWDINV
               then call ''mj_compareFwdInv'' (mj_compareFwdInv env m) (enter ''mj_checkAcc'' d2)
               else enter ''mj_checkAcc'' d2)"
    have t3: "time d3 = time d"
      using forward_time[OF assms(1) f] tc assms(1) by (simp add: d3_def keeps_timeD)
    from r have cases: "(integrator (opt m) = mjINT_EULER \<and> d' = mj_Euler env m d3) \<or>
        (integrator (opt m) = mjINT_RK4 \<and> mj_RungeKutta env m d3 4 = Inr d') \<or>
        (integrator (opt m) = mjINT_IMPLICIT \<and> d' = mj_implicit env m d3)"
      unfolding fin_def Let_def d3_def[symmetric] by (auto split: if_splits)
    then show ?thesis
      using Euler_time[OF assms(1), of m d3] implicit_time[OF assms(1), of m d3]
        RungeKutta_time[of env m d3 4 d'] t3 by auto
  qed
  have a: "\<forall>d'. mj_step env m d = Inr d' \<longrightarrow> time d' = time d + timestep (opt m)"
  proof (intro allI impI)
    fix d' assume s: "mj_step env m d = Inr d'"
    show "time d' = time d + timestep (opt m)"
    proof (cases "mj_forward env m dc")
      case (Inl e)
      from err[OF Inl] s show ?thesis by simp
    next
      case (Inr d2)
      from step[OF Inr] s have "fin d2 = Inr d'" by simp
      from fin_time[OF Inr this] show ?thesis .
    qed
  qed
  have b: "\<exists>d'. mj_step env m d = Inr d' \<and> time d' = time d + timestep (opt m)"
    if i: "integrator (opt m) = mjINT_EULER \<or> integrator (opt m) = mjINT_RK4 \<or>
           integrator (opt m) = mjINT_IMPLICIT"
      and v: "solver (opt m) = mjSOL_PGS \<or> solver (opt m) = mjSOL_CG \<or> solver (opt m) = mjSOL_NEWTON"
  proof -
    from forward_total[OF v, of env dc] obtain d2 where f: "mj_forward env m dc = Inr d2" by blast
    have "\<exists>d'. fin d2 = Inr d'"
      using i RungeKutta_total[OF v] unfolding fin_def Let_def by auto
    then obtain d' where "fin d2 = Inr d'" by blast
    with step[OF f] have "mj_step env m d = Inr d'" by simp
    with a show ?thesis by blast
  qed
  from a b show ?thesis by blast
qed

theorem C1_witness:
  "(\<exists>d'. mj_step env0 m0 d0 = Inr d' \<and> time d' = 1 / 100) \<and>
   (\<exists>d'. mj_step env0 (m0\<lparr>opt := opt0\<lparr>integrator := mjINT_RK4\<rparr>\<rparr>) d0 = Inr d' \<and>
      time d' = 1 / 100) \<and>
   (\<exists>d'. mj_step env0 (m0\<lparr>opt := opt0\<lparr>integrator := mjINT_IMPLICIT\<rparr>\<rparr>) d0 = Inr d' \<and>
      time d' = 1 / 100)"
proof -
  have k: "keeps_time env0" by (simp add: keeps_time_def env0_def)
  have bad: "\<not> mju_isBad env0 0" "\<not> mju_isBad env0 1" by (simp_all add: env0_def)
  have w: "\<exists>d'. mj_step env0 mk d0 = Inr d' \<and> time d' = 1 / 100"
    if e: "map_sum id (\<lambda>d. qacc d 0)
             (mj_forward env0 mk (mj_checkVel env0 mk (mj_checkPos env0 mk (enter ''mj_step'' d0))))
           = Inr 1"
      and n: "nq mk = 1" "nv mk = 1" "timestep (opt mk) = 1 / 100"
      and i: "integrator (opt mk) = mjINT_EULER \<or> integrator (opt mk) = mjINT_RK4 \<or>
           integrator (opt mk) = mjINT_IMPLICIT"
      and v: "solver (opt mk) = mjSOL_PGS \<or> solver (opt mk) = mjSOL_CG \<or>
           solver (opt mk) = mjSOL_NEWTON"
    for mk
  proof -
    have h1: "\<forall>i. 0 \<le> i \<and> i < nq mk \<longrightarrow> \<not> mju_isBad env0 (qpos d0 i)"
      and h2: "\<forall>i. 0 \<le> i \<and> i < nv mk \<longrightarrow> \<not> mju_isBad env0 (qvel d0 i)"
      using bad(1) by (simp_all add: d0_def)
    have h3: "\<forall>d1. mj_forward env0 mk (mj_checkVel env0 mk (mj_checkPos env0 mk (enter ''mj_step'' d0)))
                 = Inr d1 \<longrightarrow> (\<forall>i. 0 \<le> i \<and> i < nv mk \<longrightarrow> \<not> mju_isBad env0 (qacc d1 i))"
    proof (intro allI impI)
      fix d1 i
      assume f: "mj_forward env0 mk (mj_checkVel env0 mk (mj_checkPos env0 mk (enter ''mj_step'' d0)))
                 = Inr d1" and r: "0 \<le> i \<and> i < nv mk"
      from e f have "qacc d1 0 = 1" by simp
      moreover from r n(2) have "i = 0" by simp
      ultimately show "\<not> mju_isBad env0 (qacc d1 i)" using bad(2) by simp
    qed
    from C1_step_advances_time[OF k h1 h2 h3] i v
    obtain d' where "mj_step env0 mk d0 = Inr d'" "time d' = time d0 + timestep (opt mk)"
      by blast
    then show ?thesis using n(3) by (simp add: d0_def)
  qed
  have 1: "\<exists>d'. mj_step env0 m0 d0 = Inr d' \<and> time d' = 1 / 100"
  proof (rule w)
    show "map_sum id (\<lambda>d. qacc d 0)
             (mj_forward env0 m0 (mj_checkVel env0 m0 (mj_checkPos env0 m0 (enter ''mj_step'' d0))))
           = Inr 1" by code_simp
  qed (simp_all add: m0_def opt0_def)
  have 2: "\<exists>d'. mj_step env0 (m0\<lparr>opt := opt0\<lparr>integrator := mjINT_RK4\<rparr>\<rparr>) d0 = Inr d' \<and>
      time d' = 1 / 100"
  proof (rule w)
    show "map_sum id (\<lambda>d. qacc d 0)
             (mj_forward env0 (m0\<lparr>opt := opt0\<lparr>integrator := mjINT_RK4\<rparr>\<rparr>)
               (mj_checkVel env0 (m0\<lparr>opt := opt0\<lparr>integrator := mjINT_RK4\<rparr>\<rparr>)
                 (mj_checkPos env0 (m0\<lparr>opt := opt0\<lparr>integrator := mjINT_RK4\<rparr>\<rparr>)
                   (enter ''mj_step'' d0))))
           = Inr 1" by code_simp
  qed (simp_all add: m0_def opt0_def)
  have 3: "\<exists>d'. mj_step env0 (m0\<lparr>opt := opt0\<lparr>integrator := mjINT_IMPLICIT\<rparr>\<rparr>) d0 = Inr d' \<and>
      time d' = 1 / 100"
  proof (rule w)
    show "map_sum id (\<lambda>d. qacc d 0)
             (mj_forward env0 (m0\<lparr>opt := opt0\<lparr>integrator := mjINT_IMPLICIT\<rparr>\<rparr>)
               (mj_checkVel env0 (m0\<lparr>opt := opt0\<lparr>integrator := mjINT_IMPLICIT\<rparr>\<rparr>)
                 (mj_checkPos env0 (m0\<lparr>opt := opt0\<lparr>integrator := mjINT_IMPLICIT\<rparr>\<rparr>)
                   (enter ''mj_step'' d0))))
           = Inr 1" by code_simp
  qed (simp_all add: m0_def opt0_def)
  from 1 2 3 show ?thesis by blast
qed

end
